theory Spec2Isabelle
  imports Complex_Main "HOL-Library.AList"
begin

section \<open>Python values, exceptions and the builtins the rule engine calls\<close>

text \<open>
  The rule engine of \<^verbatim>\<open>analysis.py\<close> reads cells of a pandas table and the
  result of \<^verbatim>\<open>ast.literal_eval\<close>, so its inputs are arbitrary Python values.
  The universe below holds what a CSV reader and a literal of lists, dicts, strings and
  integers can produce. A float is kept as its exact rational value, or one of the three
  special floats. A dict is an association list in insertion order; only string keys are
  represented. Strings are sequences of code points below 256.
\<close>

datatype pyfloat = Finite rat | NaN | PosInf | NegInf

datatype pyval =
    PyNone
  | PyBool bool
  | PyInt int
  | PyFloat pyfloat
  | PyStr string
  | PyList "pyval list"
  | PyDict "(string \<times> pyval) list"

text \<open>
  The exceptions that occur. \<open>NotModelled\<close> is not a Python exception: it marks
  an outcome about which this development makes no statement (a literal outside the
  fragment parsed below, an operation whose result depends on the interpreter version).
  No \<^verbatim>\<open>except\<close> clause catches it, so it surfaces in every result it
  could influence.
\<close>

datatype pyerr =
    KeyError | ValueError | SyntaxError | TypeError | AttributeError | OverflowError
  | NotModelled

text \<open>\<^verbatim>\<open>try: ... except (E1, E2): return dflt\<close>\<close>

definition except_return :: "pyerr list \<Rightarrow> 'a \<Rightarrow> pyerr + 'a \<Rightarrow> pyerr + 'a" where
  "except_return caught dflt r =
     (case r of
        Inl e \<Rightarrow> if e \<in> set caught then Inr dflt else Inl e
      | Inr v \<Rightarrow> Inr v)"

text \<open>Truth value of an object, as \<^verbatim>\<open>not x\<close> and \<^verbatim>\<open>if x:\<close> test it.\<close>

fun truthy :: "pyval \<Rightarrow> bool" where
  "truthy PyNone = False"
| "truthy (PyBool b) = b"
| "truthy (PyInt n) = (n \<noteq> 0)"
| "truthy (PyFloat f) = (f \<noteq> Finite 0)"
| "truthy (PyStr s) = (s \<noteq> [])"
| "truthy (PyList xs) = (xs \<noteq> [])"
| "truthy (PyDict kvs) = (kvs \<noteq> [])"

text \<open>\<^verbatim>\<open>len(x)\<close>: defined on strings, lists and dicts, a TypeError elsewhere.\<close>

fun py_len :: "pyval \<Rightarrow> pyerr + nat" where
  "py_len (PyStr s) = Inr (length s)"
| "py_len (PyList xs) = Inr (length xs)"
| "py_len (PyDict kvs) = Inr (length (remdups (map fst kvs)))"
| "py_len _ = Inl TypeError"

subsection \<open>Strings: splitting, digits, \<^verbatim>\<open>int(str)\<close>\<close>

definition is_digit :: "char \<Rightarrow> bool" where
  "is_digit c \<longleftrightarrow> c \<in> set ''0123456789''"

definition digit_val :: "char \<Rightarrow> nat" where
  "digit_val c = of_char c - 48"

definition digits_value :: "string \<Rightarrow> nat" where
  "digits_value ds = foldl (\<lambda>acc c. 10 * acc + digit_val c) 0 ds"

text \<open>\<^verbatim>\<open>s.split(sep)\<close> for a one-character separator: never an empty list.\<close>

fun split_on :: "char \<Rightarrow> string \<Rightarrow> string list" where
  "split_on sep [] = [[]]"
| "split_on sep (c # cs) =
     (if c = sep then [] # split_on sep cs
      else (case split_on sep cs of
              [] \<Rightarrow> [[c]]
            | w # ws \<Rightarrow> (c # w) # ws))"

text \<open>
  The characters \<^verbatim>\<open>int\<close> strips from both ends of a string: tab, line feed,
  vertical tab, form feed, carriage return, space, and among the code points
  128 to 255 the two Unicode spaces U+0085 and U+00A0.
\<close>

definition int_space :: "char \<Rightarrow> bool" where
  "int_space c \<longleftrightarrow>
     c \<in> {CHR 0x09, CHR 0x0A, CHR 0x0B, CHR 0x0C, CHR 0x0D, CHR '' '', CHR 0x85, CHR 0xA0}"

definition strip_space :: "string \<Rightarrow> string" where
  "strip_space s = rev (dropWhile int_space (rev (dropWhile int_space s)))"

text \<open>
  An unsigned decimal for \<^verbatim>\<open>int\<close>: groups of digits joined by single
  underscores; no group is empty.
\<close>

definition int_of_unsigned :: "string \<Rightarrow> nat option" where
  "int_of_unsigned body =
     (let groups = split_on CHR ''_'' body
      in if list_all (\<lambda>g. g \<noteq> [] \<and> list_all is_digit g) groups
         then Some (digits_value (concat groups))
         else None)"

text \<open>
  \<^verbatim>\<open>int(s)\<close> on a string, base 10: surrounding whitespace stripped, one
  optional sign, then an unsigned decimal. \<open>None\<close> stands for the ValueError.
  Python's integers are unbounded; the interpreter's configurable cap on the number of
  digits of a conversion is a resource limit and is not part of this model.
\<close>

definition int_of_str :: "string \<Rightarrow> int option" where
  "int_of_str s =
     (case strip_space s of
        [] \<Rightarrow> None
      | c # cs \<Rightarrow>
          if c = CHR ''-'' then map_option (\<lambda>n. - int n) (int_of_unsigned cs)
          else if c = CHR ''+'' then map_option int (int_of_unsigned cs)
          else map_option int (int_of_unsigned (c # cs)))"

text \<open>
  \<^verbatim>\<open>int(x)\<close>: an integer is itself, a bool is 0 or 1, a finite float is
  truncated towards zero, NaN is a ValueError and an infinity an OverflowError; a string is
  parsed; None, lists and dicts are a TypeError.
\<close>

fun py_int :: "pyval \<Rightarrow> pyerr + int" where
  "py_int (PyInt n) = Inr n"
| "py_int (PyBool b) = Inr (if b then 1 else 0)"
| "py_int (PyFloat (Finite r)) = Inr (if 0 \<le> r then \<lfloor>r\<rfloor> else \<lceil>r\<rceil>)"
| "py_int (PyFloat NaN) = Inl ValueError"
| "py_int (PyFloat PosInf) = Inl OverflowError"
| "py_int (PyFloat NegInf) = Inl OverflowError"
| "py_int (PyStr s) = (case int_of_str s of None \<Rightarrow> Inl ValueError | Some n \<Rightarrow> Inr n)"
| "py_int PyNone = Inl TypeError"
| "py_int (PyList xs) = Inl TypeError"
| "py_int (PyDict kvs) = Inl TypeError"

section \<open>Rows of the table\<close>

text \<open>
  A row handed to a predicate is a pandas Series indexed by column name.
  \<^verbatim>\<open>row[key]\<close> raises KeyError when the label is absent.
\<close>

type_synonym series = "string \<rightharpoonup> pyval"

definition getitem :: "series \<Rightarrow> string \<Rightarrow> pyerr + pyval" where
  "getitem row key = (case row key of None \<Rightarrow> Inl KeyError | Some v \<Rightarrow> Inr v)"

section \<open>Rank-threshold predicates\<close>

definition is_good_scoring_team :: "series \<Rightarrow> pyerr + bool" where
  "is_good_scoring_team row =
     except_return [ValueError, KeyError] False
       (case getitem row ''PTS Rank'' of
          Inl e \<Rightarrow> Inl e
        | Inr v \<Rightarrow> (case py_int v of Inl e \<Rightarrow> Inl e | Inr rank \<Rightarrow> Inr (rank \<le> 50)))"

definition forces_turnovers :: "series \<Rightarrow> pyerr + bool" where
  "forces_turnovers row =
     except_return [ValueError, KeyError] False
       (case getitem row ''Opponent TOV Rank'' of
          Inl e \<Rightarrow> Inl e
        | Inr v \<Rightarrow> (case py_int v of Inl e \<Rightarrow> Inl e | Inr rank \<Rightarrow> Inr (rank \<le> 50)))"

definition protects_basketball :: "series \<Rightarrow> pyerr + bool" where
  "protects_basketball row =
     except_return [ValueError, KeyError] False
       (case getitem row ''TOV Rank'' of
          Inl e \<Rightarrow> Inl e
        | Inr v \<Rightarrow> (case py_int v of Inl e \<Rightarrow> Inl e | Inr rank \<Rightarrow> Inr (300 \<le> rank)))"

definition high_volume_three_point_team :: "series \<Rightarrow> pyerr + bool" where
  "high_volume_three_point_team row =
     except_return [ValueError, KeyError] False
       (case getitem row ''3P Rank'' of
          Inl e \<Rightarrow> Inl e
        | Inr v \<Rightarrow> (case py_int v of Inl e \<Rightarrow> Inl e | Inr rank \<Rightarrow> Inr (rank \<le> 50)))"

definition elite_offensive_rebounding :: "series \<Rightarrow> pyerr + bool" where
  "elite_offensive_rebounding row =
     except_return [ValueError, KeyError] False
       (case getitem row ''ORB Rank'' of
          Inl e \<Rightarrow> Inl e
        | Inr v \<Rightarrow> (case py_int v of Inl e \<Rightarrow> Inl e | Inr rank \<Rightarrow> Inr (rank \<le> 50)))"

definition good_defense :: "series \<Rightarrow> pyerr + bool" where
  "good_defense row =
     except_return [ValueError, KeyError] False
       (case getitem row ''Opponent PTS Rank'' of
          Inl e \<Rightarrow> Inl e
        | Inr v \<Rightarrow> (case py_int v of Inl e \<Rightarrow> Inl e | Inr rank \<Rightarrow> Inr (rank \<le> 50)))"

definition defends_three_point :: "series \<Rightarrow> pyerr + bool" where
  "defends_three_point row =
     except_return [ValueError, KeyError] False
       (case getitem row ''Opponent 3P% Rank'' of
          Inl e \<Rightarrow> Inl e
        | Inr v \<Rightarrow> (case py_int v of Inl e \<Rightarrow> Inl e | Inr rank \<Rightarrow> Inr (rank \<le> 50)))"

definition good_free_throw_team :: "series \<Rightarrow> pyerr + bool" where
  "good_free_throw_team row =
     except_return [ValueError, KeyError] False
       (case getitem row ''FT% Rank'' of
          Inl e \<Rightarrow> Inl e
        | Inr v \<Rightarrow> (case py_int v of Inl e \<Rightarrow> Inl e | Inr rank \<Rightarrow> Inr (rank \<le> 50)))"

text \<open>
  The seven predicates that test \<open>rank \<le> 50\<close>, each with the rank field it reads
  (all rank-threshold predicates but \<open>protects_basketball\<close>).
\<close>

definition at_most_50_family :: "(string \<times> (series \<Rightarrow> pyerr + bool)) list" where
  "at_most_50_family =
     [(''PTS Rank'', is_good_scoring_team),
      (''Opponent TOV Rank'', forces_turnovers),
      (''3P Rank'', high_volume_three_point_team),
      (''ORB Rank'', elite_offensive_rebounding),
      (''Opponent PTS Rank'', good_defense),
      (''Opponent 3P% Rank'', defends_three_point),
      (''FT% Rank'', good_free_throw_team)]"

section \<open>The roster parser\<close>

subsection \<open>A fragment of \<^verbatim>\<open>ast.literal_eval\<close>\<close>

text \<open>
  \<^verbatim>\<open>ast.literal_eval\<close> is library code. It is modelled on the texts made
  of brackets, braces, commas, colons, quoted strings without escapes, decimal integers,
  \<^verbatim>\<open>None\<close>, \<^verbatim>\<open>True\<close>, \<^verbatim>\<open>False\<close> and other names,
  separated by spaces: the shape of the roster column written by the collector, and of
  what becomes of it when it is cut short or garbled. Such a text yields
  \<^item> its value, when it is a literal of lists, dicts with string keys, strings, integers
    and the three constants;
  \<^item> a SyntaxError, when it is empty, its brackets do not match, or it breaks the grammar
    of displays;
  \<^item> a ValueError, when it parses but holds a name, which is not a literal;
  \<^item> a TypeError, when a dict display has a list or a dict as a key.
  On every other text the outcome is \<open>NotModelled\<close>: other characters, keywords,
  what may be a tuple, a set, a subscript or adjacent strings, keys that are not strings,
  nesting deeper than 20, integers of 4300 digits or more.
\<close>

datatype token =
    LBrack | RBrack | LBrace | RBrace | Comma | Colon
  | TStr string | TInt nat | TNone | TTrue | TFalse | TName string

definition plain_char :: "char \<Rightarrow> bool" where
  "plain_char c \<longleftrightarrow> 32 \<le> (of_char c :: nat) \<and> (of_char c :: nat) \<le> 126 \<and> c \<noteq> CHR 0x5C"

definition at_delimiter :: "string \<Rightarrow> bool" where
  "at_delimiter cs = (case cs of [] \<Rightarrow> True | c # _ \<Rightarrow> c \<in> set '' ]},:'')"

definition ident_start :: "char \<Rightarrow> bool" where
  "ident_start c \<longleftrightarrow> c \<in> set ''abcdefghijklmnopqrstuvwxyzABCDEFGHIJKLMNOPQRSTUVWXYZ_''"

definition ident_char :: "char \<Rightarrow> bool" where
  "ident_char c \<longleftrightarrow> ident_start c \<or> is_digit c"

definition python_keywords :: "string list" where
  "python_keywords =
     [''and'', ''as'', ''assert'', ''async'', ''await'', ''break'', ''class'', ''continue'',
      ''def'', ''del'', ''elif'', ''else'', ''except'', ''finally'', ''for'', ''from'',
      ''global'', ''if'', ''import'', ''in'', ''is'', ''lambda'', ''nonlocal'', ''not'', ''or'',
      ''pass'', ''raise'', ''return'', ''try'', ''while'', ''with'', ''yield'']"

definition word_token :: "string \<Rightarrow> token" where
  "word_token w =
     (if w = ''None'' then TNone
      else if w = ''True'' then TTrue
      else if w = ''False'' then TFalse
      else TName w)"

text \<open>
  The tokenizer. A string token runs from a quote to the next occurrence of the same quote
  and holds printable ASCII other than the backslash; an empty string directly followed
  by its quote would open a triple-quoted string and is left out. A number or a word must
  be followed by a space, a closing bracket, a comma, a colon or the end. A decimal
  integer has no leading zero. A word is made of ASCII letters, digits and underscores and
  is one of the three constants or a name; a keyword is left out. \<open>None\<close> is a text
  outside the fragment.
\<close>

function tokenize :: "string \<Rightarrow> token list option" where
  "tokenize [] = Some []"
| "tokenize (c # cs) =
     (if c = CHR '' '' then tokenize cs
      else if c = CHR ''['' then map_option (Cons LBrack) (tokenize cs)
      else if c = CHR '']'' then map_option (Cons RBrack) (tokenize cs)
      else if c = CHR ''{'' then map_option (Cons LBrace) (tokenize cs)
      else if c = CHR ''}'' then map_option (Cons RBrace) (tokenize cs)
      else if c = CHR '','' then map_option (Cons Comma) (tokenize cs)
      else if c = CHR '':'' then map_option (Cons Colon) (tokenize cs)
      else if c = CHR 0x27 \<or> c = CHR 0x22 then
        (let body = takeWhile (\<lambda>x. x \<noteq> c) cs;
             rest = drop (Suc (length body)) cs
         in if length body < length cs \<and> list_all plain_char body
               \<and> \<not> (body = [] \<and> take 1 rest = [c])
            then map_option (Cons (TStr body)) (tokenize rest)
            else None)
      else if is_digit c then
        (let ds = takeWhile is_digit cs;
             rest = drop (length ds) cs
         in if at_delimiter rest \<and> (if c = CHR ''0'' then ds = [] else length ds < 4299)
            then map_option (Cons (TInt (digits_value (c # ds)))) (tokenize rest)
            else None)
      else if ident_start c then
        (let w = takeWhile ident_char cs;
             rest = drop (length w) cs
         in if at_delimiter rest \<and> c # w \<notin> set python_keywords
            then map_option (Cons (word_token (c # w))) (tokenize rest)
            else None)
      else None)"
  by pat_completeness auto
termination
  by (relation "measure length") auto

text \<open>
  The syntax tree, as \<^verbatim>\<open>ast.parse\<close> builds it: a dict display keeps its keys
  and its values in two lists.
\<close>

datatype lit =
    LNone | LBool bool | LInt nat | LStr string | LName string
  | LList "lit list" | LDict "lit list" "lit list"

text \<open>
  The parser reads the tokens from left to right with a stack of the displays still open.
  A list frame records whether an element was just read (then a comma or the closing
  bracket must follow); a dict frame records where it stands within an entry.
\<close>

datatype dstate = DReady | DKey lit | DColon lit | DAfter

datatype frame = FList "lit list" bool | FDict "lit list" "lit list" dstate

text \<open>A value arrives: where it goes, or \<open>None\<close> where no value may stand.\<close>

fun put_value :: "lit \<Rightarrow> frame list \<Rightarrow> lit option \<Rightarrow> (frame list \<times> lit option) option" where
  "put_value v [] None = Some ([], Some v)"
| "put_value v [] (Some w) = None"
| "put_value v (FList items False # fs) whole = Some (FList (items @ [v]) True # fs, whole)"
| "put_value v (FList items True # fs) whole = None"
| "put_value v (FDict ks vs DReady # fs) whole = Some (FDict ks vs (DKey v) # fs, whole)"
| "put_value v (FDict ks vs (DColon k) # fs) whole =
     Some (FDict (ks @ [k]) (vs @ [v]) DAfter # fs, whole)"
| "put_value v (FDict ks vs (DKey k) # fs) whole = None"
| "put_value v (FDict ks vs DAfter # fs) whole = None"

text \<open>
  The outcome of parsing: a tree; \<open>BadSyntax\<close>, when no Python expression starts
  with the tokens read so far; \<open>Unknown\<close>, when the text leaves the fragment. A string
  or an opening bracket right after a complete value may be an adjacent string or a
  subscript; a comma outside all brackets makes a tuple; a comma or a closing brace after
  a lone element of a brace display makes a set.
\<close>

datatype parse_result = Tree lit | BadSyntax | Unknown

fun parse_tokens :: "token list \<Rightarrow> frame list \<Rightarrow> lit option \<Rightarrow> parse_result" where
  "parse_tokens [] fs whole =
     (case whole of None \<Rightarrow> BadSyntax | Some v \<Rightarrow> if fs = [] then Tree v else BadSyntax)"
| "parse_tokens (LBrack # ts) fs whole =
     (if put_value LNone fs whole = None then Unknown
      else parse_tokens ts (FList [] False # fs) whole)"
| "parse_tokens (LBrace # ts) fs whole =
     (if put_value LNone fs whole = None then BadSyntax
      else parse_tokens ts (FDict [] [] DReady # fs) whole)"
| "parse_tokens (RBrack # ts) fs whole =
     (case fs of
        FList items after # fs' \<Rightarrow>
          (case put_value (LList items) fs' whole of
             None \<Rightarrow> Unknown
           | Some (fs'', whole') \<Rightarrow> parse_tokens ts fs'' whole')
      | _ \<Rightarrow> BadSyntax)"
| "parse_tokens (RBrace # ts) fs whole =
     (case fs of
        FDict ks vs d # fs' \<Rightarrow>
          (if d = DReady \<or> d = DAfter
           then (case put_value (LDict ks vs) fs' whole of
                   None \<Rightarrow> Unknown
                 | Some (fs'', whole') \<Rightarrow> parse_tokens ts fs'' whole')
           else (case d of DKey k \<Rightarrow> Unknown | _ \<Rightarrow> BadSyntax))
      | _ \<Rightarrow> BadSyntax)"
| "parse_tokens (Comma # ts) fs whole =
     (case fs of
        [] \<Rightarrow> Unknown
      | FList items True # fs' \<Rightarrow> parse_tokens ts (FList items False # fs') whole
      | FList items False # fs' \<Rightarrow> BadSyntax
      | FDict ks vs DAfter # fs' \<Rightarrow> parse_tokens ts (FDict ks vs DReady # fs') whole
      | FDict ks vs (DKey k) # fs' \<Rightarrow> Unknown
      | FDict ks vs d # fs' \<Rightarrow> BadSyntax)"
| "parse_tokens (Colon # ts) fs whole =
     (case fs of
        FDict ks vs (DKey k) # fs' \<Rightarrow> parse_tokens ts (FDict ks vs (DColon k) # fs') whole
      | _ \<Rightarrow> BadSyntax)"
| "parse_tokens (TStr s # ts) fs whole =
     (case put_value (LStr s) fs whole of
        None \<Rightarrow> Unknown
      | Some (fs', whole') \<Rightarrow> parse_tokens ts fs' whole')"
| "parse_tokens (TInt n # ts) fs whole =
     (case put_value (LInt n) fs whole of
        None \<Rightarrow> BadSyntax
      | Some (fs', whole') \<Rightarrow> parse_tokens ts fs' whole')"
| "parse_tokens (TNone # ts) fs whole =
     (case put_value LNone fs whole of
        None \<Rightarrow> BadSyntax
      | Some (fs', whole') \<Rightarrow> parse_tokens ts fs' whole')"
| "parse_tokens (TTrue # ts) fs whole =
     (case put_value (LBool True) fs whole of
        None \<Rightarrow> BadSyntax
      | Some (fs', whole') \<Rightarrow> parse_tokens ts fs' whole')"
| "parse_tokens (TFalse # ts) fs whole =
     (case put_value (LBool False) fs whole of
        None \<Rightarrow> BadSyntax
      | Some (fs', whole') \<Rightarrow> parse_tokens ts fs' whole')"
| "parse_tokens (TName n # ts) fs whole =
     (case put_value (LName n) fs whole of
        None \<Rightarrow> BadSyntax
      | Some (fs', whole') \<Rightarrow> parse_tokens ts fs' whole')"

text \<open>
  \<^verbatim>\<open>_convert\<close>: the value of a tree. A name is a malformed node, a ValueError.
  A dict is filled entry by entry, key and value converted first; a key seen before keeps
  its place and takes the new value; a list or a dict as a key is unhashable.
\<close>

function (sequential) convert :: "lit \<Rightarrow> pyerr + pyval"
  and convert_list :: "lit list \<Rightarrow> pyerr + pyval list"
  and convert_items :: "lit list \<Rightarrow> lit list \<Rightarrow> (string \<times> pyval) list
                          \<Rightarrow> pyerr + (string \<times> pyval) list" where
  "convert LNone = Inr PyNone"
| "convert (LBool b) = Inr (PyBool b)"
| "convert (LInt n) = Inr (PyInt (int n))"
| "convert (LStr s) = Inr (PyStr s)"
| "convert (LName n) = Inl ValueError"
| "convert (LList xs) =
     (case convert_list xs of Inl e \<Rightarrow> Inl e | Inr vs \<Rightarrow> Inr (PyList vs))"
| "convert (LDict ks vs) =
     (case convert_items ks vs [] of Inl e \<Rightarrow> Inl e | Inr d \<Rightarrow> Inr (PyDict d))"
| "convert_list [] = Inr []"
| "convert_list (x # xs) =
     (case convert x of
        Inl e \<Rightarrow> Inl e
      | Inr v \<Rightarrow> (case convert_list xs of Inl e \<Rightarrow> Inl e | Inr vs \<Rightarrow> Inr (v # vs)))"
| "convert_items (k # ks) (v # vs) d =
     (case convert k of
        Inl e \<Rightarrow> Inl e
      | Inr key \<Rightarrow>
          (case convert v of
             Inl e \<Rightarrow> Inl e
           | Inr val \<Rightarrow>
               (case key of
                  PyStr s \<Rightarrow> convert_items ks vs (AList.update s val d)
                | PyList _ \<Rightarrow> Inl TypeError
                | PyDict _ \<Rightarrow> Inl TypeError
                | _ \<Rightarrow> Inl NotModelled)))"
| "convert_items _ _ d = Inr d"
  by pat_completeness auto
termination
  by (relation "measure (\<lambda>x. case x of
          Inl l \<Rightarrow> size l
        | Inr (Inl xs) \<Rightarrow> size_list size xs
        | Inr (Inr (ks, vs, d)) \<Rightarrow> size_list size ks + size_list size vs)")
     auto

fun brackets_ok :: "token list \<Rightarrow> token list \<Rightarrow> bool" where
  "brackets_ok [] opened = (opened = [])"
| "brackets_ok (LBrack # ts) opened = brackets_ok ts (LBrack # opened)"
| "brackets_ok (LBrace # ts) opened = brackets_ok ts (LBrace # opened)"
| "brackets_ok (RBrack # ts) opened =
     (case opened of LBrack # rest \<Rightarrow> brackets_ok ts rest | _ \<Rightarrow> False)"
| "brackets_ok (RBrace # ts) opened =
     (case opened of LBrace # rest \<Rightarrow> brackets_ok ts rest | _ \<Rightarrow> False)"
| "brackets_ok (t # ts) opened = brackets_ok ts opened"

fun nesting_depth :: "token list \<Rightarrow> nat \<Rightarrow> nat" where
  "nesting_depth [] d = d"
| "nesting_depth (LBrack # ts) d = max (Suc d) (nesting_depth ts (Suc d))"
| "nesting_depth (LBrace # ts) d = max (Suc d) (nesting_depth ts (Suc d))"
| "nesting_depth (RBrack # ts) d = max d (nesting_depth ts (d - 1))"
| "nesting_depth (RBrace # ts) d = max d (nesting_depth ts (d - 1))"
| "nesting_depth (t # ts) d = nesting_depth ts d"

text \<open>
  \<^verbatim>\<open>literal_eval\<close> strips leading spaces and tabs, parses, then converts. An
  empty text is a SyntaxError.
\<close>

definition literal_eval :: "string \<Rightarrow> pyerr + pyval" where
  "literal_eval node_or_string =
     (case tokenize (dropWhile (\<lambda>c. c = CHR '' '' \<or> c = CHR 0x09) node_or_string) of
        None \<Rightarrow> Inl NotModelled
      | Some ts \<Rightarrow>
          if 20 < nesting_depth ts 0 then Inl NotModelled
          else if ts = [] \<or> \<not> brackets_ok ts [] then Inl SyntaxError
          else (case parse_tokens ts [] None of
                  Tree node \<Rightarrow> convert node
                | BadSyntax \<Rightarrow> Inl SyntaxError
                | Unknown \<Rightarrow> Inl NotModelled))"

subsection \<open>\<^verbatim>\<open>parse_roster\<close>\<close>

definition parse_roster :: "pyval \<Rightarrow> pyerr + pyval" where
  "parse_roster roster_str =
     (case roster_str of
        PyStr s \<Rightarrow> except_return [ValueError, SyntaxError] (PyList []) (literal_eval s)
      | _ \<Rightarrow> Inr roster_str)"

section \<open>Roster predicates\<close>

text \<open>\<^verbatim>\<open>player.get(key, dflt)\<close>: only a dict has the method.\<close>

fun py_get :: "pyval \<Rightarrow> string \<Rightarrow> pyval \<Rightarrow> pyerr + pyval" where
  "py_get (PyDict kvs) key dflt = Inr (case map_of kvs key of None \<Rightarrow> dflt | Some v \<Rightarrow> v)"
| "py_get _ key dflt = Inl AttributeError"

text \<open>\<^verbatim>\<open>x in [s1, ..., sn]\<close> for a list of strings: only an equal string is found.\<close>

fun py_in :: "pyval \<Rightarrow> string list \<Rightarrow> bool" where
  "py_in (PyStr s) choices = (s \<in> set choices)"
| "py_in _ choices = False"

text \<open>
  \<^verbatim>\<open>roster[:5]\<close>, as the sequence a loop over it yields. A list gives its first
  five elements, a string its first five characters as one-character strings. Slicing a
  dict raises TypeError before Python 3.12 and KeyError from 3.12 on, so no outcome is
  fixed for it. Nothing else is subscriptable.
\<close>

fun first_five :: "pyval \<Rightarrow> pyerr + pyval list" where
  "first_five (PyList xs) = Inr (take 5 xs)"
| "first_five (PyStr s) = Inr (map (\<lambda>c. PyStr [c]) (take 5 s))"
| "first_five (PyDict kvs) = Inl NotModelled"
| "first_five _ = Inl TypeError"

text \<open>
  The head shared by the four roster predicates:
  \<^verbatim>\<open>roster = parse_roster(row['roster'])\<close>,
  \<^verbatim>\<open>if not roster or len(roster) < 5: return False\<close>,
  \<^verbatim>\<open>top_5 = roster[:5]\<close>. \<open>Inr None\<close> is the early
  \<^verbatim>\<open>return False\<close>.
\<close>

definition roster_top_5 :: "series \<Rightarrow> pyerr + pyval list option" where
  "roster_top_5 row =
     (case getitem row ''roster'' of
        Inl e \<Rightarrow> Inl e
      | Inr cell \<Rightarrow>
          (case parse_roster cell of
             Inl e \<Rightarrow> Inl e
           | Inr roster \<Rightarrow>
               if \<not> truthy roster then Inr None
               else (case py_len roster of
                       Inl e \<Rightarrow> Inl e
                     | Inr n \<Rightarrow>
                         if n < 5 then Inr None
                         else (case first_five roster of
                                 Inl e \<Rightarrow> Inl e
                               | Inr top_5 \<Rightarrow> Inr (Some top_5)))))"

text \<open>\<^verbatim>\<open>sum(1 for player in top_5 if cond(player))\<close>\<close>

fun count_where :: "(pyval \<Rightarrow> pyerr + bool) \<Rightarrow> pyval list \<Rightarrow> pyerr + nat" where
  "count_where cond [] = Inr 0"
| "count_where cond (player # rest) =
     (case cond player of
        Inl e \<Rightarrow> Inl e
      | Inr b \<Rightarrow>
          (case count_where cond rest of
             Inl e \<Rightarrow> Inl e
           | Inr n \<Rightarrow> Inr (if b then Suc n else n)))"

definition class_in :: "string list \<Rightarrow> pyval \<Rightarrow> pyerr + bool" where
  "class_in classes player =
     (case py_get player ''class'' (PyStr []) of
        Inl e \<Rightarrow> Inl e
      | Inr c \<Rightarrow> Inr (py_in c classes))"

definition has_experienced_core :: "series \<Rightarrow> pyerr + bool" where
  "has_experienced_core row =
     except_return [KeyError, AttributeError] False
       (case roster_top_5 row of
          Inl e \<Rightarrow> Inl e
        | Inr None \<Rightarrow> Inr False
        | Inr (Some top_5) \<Rightarrow>
            (case count_where (class_in [''JR'', ''SR'']) top_5 of
               Inl e \<Rightarrow> Inl e
             | Inr upperclassmen \<Rightarrow>
                 (case count_where (class_in [''FR'', ''SO'']) top_5 of
                    Inl e \<Rightarrow> Inl e
                  | Inr lowerclassmen \<Rightarrow> Inr (lowerclassmen < upperclassmen))))"

text \<open>
  \<^verbatim>\<open>re.match(r'(\d+)', x)\<close> and its group 1: a TypeError unless \<open>x\<close> is a
  string, then the longest run of digits at the start, \<open>None\<close> when there is none.
\<close>

fun match_digits :: "pyval \<Rightarrow> pyerr + string option" where
  "match_digits (PyStr s) =
     Inr (if takeWhile is_digit s = [] then None else Some (takeWhile is_digit s))"
| "match_digits _ = Inl TypeError"

fun recruits_loop :: "pyval list \<Rightarrow> nat \<Rightarrow> pyerr + nat" where
  "recruits_loop [] top_recruits = Inr top_recruits"
| "recruits_loop (player # rest) top_recruits =
     (case py_get player ''rsci_rank'' (PyStr []) of
        Inl e \<Rightarrow> Inl e
      | Inr rsci \<Rightarrow>
          (case match_digits rsci of
             Inl e \<Rightarrow> Inl e
           | Inr None \<Rightarrow> recruits_loop rest top_recruits
           | Inr (Some g) \<Rightarrow>
               (case py_int (PyStr g) of
                  Inl e \<Rightarrow> Inl e
                | Inr n \<Rightarrow>
                    recruits_loop rest (if n \<le> 100 then top_recruits + 1 else top_recruits))))"

definition has_top_recruits :: "series \<Rightarrow> pyerr + bool" where
  "has_top_recruits row =
     except_return [KeyError, AttributeError] False
       (case roster_top_5 row of
          Inl e \<Rightarrow> Inl e
        | Inr None \<Rightarrow> Inr False
        | Inr (Some top_5) \<Rightarrow>
            (case recruits_loop top_5 0 of
               Inl e \<Rightarrow> Inl e
             | Inr top_recruits \<Rightarrow> Inr (2 \<le> top_recruits)))"

text \<open>
  The whitespace class \<^verbatim>\<open>\s\<close> of a string pattern, among the code points
  below 256.
\<close>

definition re_space :: "char \<Rightarrow> bool" where
  "re_space c \<longleftrightarrow>
     c \<in> {CHR 0x09, CHR 0x0A, CHR 0x0B, CHR 0x0C, CHR 0x0D, CHR 0x1C, CHR 0x1D, CHR 0x1E,
          CHR 0x1F, CHR '' '', CHR 0x85, CHR 0xA0}"

text \<open>
  Group 1 of \<^verbatim>\<open>re.match(r'(\d+\.?\d*)\s*Pts', summary)\<close>. The group is the
  leading digits, then a dot and the digits after it when a dot follows; it matches only
  when whitespace and then \<^verbatim>\<open>Pts\<close> come next. (Giving back a digit or the
  dot never helps the match: what would follow the shorter group is a digit or a dot.)
\<close>

definition pts_group :: "string \<Rightarrow> string option" where
  "pts_group summary =
     (let d1 = takeWhile is_digit summary;
          r1 = drop (length d1) summary;
          d2 = takeWhile is_digit (drop 1 r1);
          dotted = (take 1 r1 = ''.'');
          g = (if dotted then d1 @ ''.'' @ d2 else d1);
          r2 = (if dotted then drop (Suc (length d2)) r1 else r1)
      in if d1 \<noteq> [] \<and> take 3 (dropWhile re_space r2) = ''Pts'' then Some g else None)"

fun match_pts :: "pyval \<Rightarrow> pyerr + string option" where
  "match_pts (PyStr s) = Inr (pts_group s)"
| "match_pts _ = Inl TypeError"

text \<open>The exact value of a decimal \<open>digits\<close> or \<open>digits.digits\<close>.\<close>

definition decimal_value :: "string \<Rightarrow> rat" where
  "decimal_value g =
     (let ip = takeWhile is_digit g;
          fp = drop (Suc (length ip)) g
      in of_nat (digits_value ip) + of_nat (digits_value fp) / 10 ^ length fp)"

text \<open>
  \<^verbatim>\<open>float(g) > 15\<close> for such a decimal. \<^verbatim>\<open>float\<close> rounds the decimal
  to the nearest double, ties to even. The double after 15 is \<open>15 + 1 / 2 ^ 49\<close>,
  and of the two 15 is the even one, so the result exceeds 15 exactly when the decimal lies
  above their midpoint \<open>15 + 1 / 2 ^ 50\<close>.
\<close>

definition float_gt_15 :: "string \<Rightarrow> bool" where
  "float_gt_15 g \<longleftrightarrow> 15 + 1 / 2 ^ 50 < decimal_value g"

fun guard_loop :: "pyval list \<Rightarrow> pyerr + bool" where
  "guard_loop [] = Inr False"
| "guard_loop (player # rest) =
     (case py_get player ''pos'' (PyStr []) of
        Inl e \<Rightarrow> Inl e
      | Inr pos \<Rightarrow>
          if py_in pos [''G'', ''PG'', ''SG''] then
            (case py_get player ''stats_summary'' (PyStr []) of
               Inl e \<Rightarrow> Inl e
             | Inr summary \<Rightarrow>
                 if truthy summary then
                   (case match_pts summary of
                      Inl e \<Rightarrow> Inl e
                    | Inr None \<Rightarrow> guard_loop rest
                    | Inr (Some g) \<Rightarrow> if float_gt_15 g then Inr True else guard_loop rest)
                 else guard_loop rest)
          else guard_loop rest)"

definition has_scoring_guard :: "series \<Rightarrow> pyerr + bool" where
  "has_scoring_guard row =
     except_return [KeyError, AttributeError] False
       (case roster_top_5 row of
          Inl e \<Rightarrow> Inl e
        | Inr None \<Rightarrow> Inr False
        | Inr (Some top_5) \<Rightarrow> guard_loop top_5)"

text \<open>\<^verbatim>\<open>height.split('-')\<close>: only a string has the method.\<close>

fun py_split :: "pyval \<Rightarrow> pyerr + string list" where
  "py_split (PyStr s) = Inr (split_on CHR ''-'' s)"
| "py_split _ = Inl AttributeError"

text \<open>
  \<^verbatim>\<open>feet, inches = map(int, parts)\<close>. The map is lazy: unpacking converts the
  first part, then the second, then asks for a third, and a conversion that fails raises
  where it stands. Too few or too many parts are a ValueError.
\<close>

fun unpack2 :: "(pyerr + int) list \<Rightarrow> pyerr + int \<times> int" where
  "unpack2 [] = Inl ValueError"
| "unpack2 (Inl e # rest) = Inl e"
| "unpack2 [Inr feet] = Inl ValueError"
| "unpack2 (Inr feet # Inl e # rest) = Inl e"
| "unpack2 [Inr feet, Inr inches] = Inr (feet, inches)"
| "unpack2 (Inr feet # Inr inches # Inl e # rest) = Inl e"
| "unpack2 (Inr feet # Inr inches # Inr extra # rest) = Inl ValueError"

definition feet_inches :: "pyval \<Rightarrow> pyerr + int \<times> int" where
  "feet_inches height =
     (case py_split height of
        Inl e \<Rightarrow> Inl e
      | Inr parts \<Rightarrow> unpack2 (map (\<lambda>p. py_int (PyStr p)) parts))"

fun size_loop :: "pyval list \<Rightarrow> nat \<Rightarrow> pyerr + nat" where
  "size_loop [] tall_players = Inr tall_players"
| "size_loop (player # rest) tall_players =
     (case py_get player ''height'' (PyStr []) of
        Inl e \<Rightarrow> Inl e
      | Inr height \<Rightarrow>
          if truthy height then
            (case feet_inches height of
               Inl e \<Rightarrow> if e = ValueError then size_loop rest tall_players else Inl e
             | Inr (feet, inches) \<Rightarrow>
                 size_loop rest
                   (if 78 \<le> feet * 12 + inches then tall_players + 1 else tall_players))
          else size_loop rest tall_players)"

definition has_size :: "series \<Rightarrow> pyerr + bool" where
  "has_size row =
     except_return [KeyError, AttributeError] False
       (case roster_top_5 row of
          Inl e \<Rightarrow> Inl e
        | Inr None \<Rightarrow> Inr False
        | Inr (Some top_5) \<Rightarrow>
            (case size_loop top_5 0 of
               Inl e \<Rightarrow> Inl e
             | Inr tall_players \<Rightarrow> Inr (3 \<le> tall_players)))"

section \<open>The evaluation driver\<close>

definition ANALYSIS_FUNCTIONS :: "(string \<times> (series \<Rightarrow> pyerr + bool)) list" where
  "ANALYSIS_FUNCTIONS =
     [(''Can Score'', is_good_scoring_team),
      (''Forces Turnovers'', forces_turnovers),
      (''Protects the Ball'', protects_basketball),
      (''High Volume 3PT Team'', high_volume_three_point_team),
      (''Elite Offensive Rebounding'', elite_offensive_rebounding),
      (''Good Defense'', good_defense),
      (''Defends Three Point'', defends_three_point),
      (''Good Free Throw Team'', good_free_throw_team),
      (''Experienced Core'', has_experienced_core),
      (''Multiple Top Recruits'', has_top_recruits),
      (''Has Scoring Guard'', has_scoring_guard),
      (''Has Size'', has_size)]"

text \<open>
  A table: its column names and its rows, each row holding one cell per column. A frame is
  well formed when the column names are distinct and every row has as many cells as there
  are columns.
\<close>

record dataframe =
  columns :: "string list"
  cells :: "pyval list list"

definition well_formed :: "dataframe \<Rightarrow> bool" where
  "well_formed df \<longleftrightarrow>
     distinct (columns df) \<and> list_all (\<lambda>r. length r = length (columns df)) (cells df)"

definition row_series :: "string list \<Rightarrow> pyval list \<Rightarrow> series" where
  "row_series cols r = map_of (zip cols r)"

text \<open>\<^verbatim>\<open>stats_df[names]\<close>: the named columns, a KeyError when one is absent.\<close>

definition select_columns :: "dataframe \<Rightarrow> string list \<Rightarrow> pyerr + dataframe" where
  "select_columns df names =
     (if list_all (\<lambda>n. n \<in> set (columns df)) names
      then Inr \<lparr>columns = names,
                cells = map (\<lambda>r. map (\<lambda>n. case row_series (columns df) r n of
                                              None \<Rightarrow> PyNone
                                            | Some v \<Rightarrow> v) names) (cells df)\<rparr>
      else Inl KeyError)"

text \<open>
  \<^verbatim>\<open>stats_df.apply(func, axis=1)\<close>: the function is called on the rows in order,
  and an exception it raises ends the call.
\<close>

fun apply_rows :: "(series \<Rightarrow> pyerr + bool) \<Rightarrow> series list \<Rightarrow> pyerr + bool list" where
  "apply_rows func [] = Inr []"
| "apply_rows func (r # rs) =
     (case func r of
        Inl e \<Rightarrow> Inl e
      | Inr b \<Rightarrow> (case apply_rows func rs of Inl e \<Rightarrow> Inl e | Inr bs \<Rightarrow> Inr (b # bs)))"

text \<open>\<^verbatim>\<open>df[name] = values\<close> for a column name the frame does not have yet.\<close>

definition set_column :: "dataframe \<Rightarrow> string \<Rightarrow> pyval list \<Rightarrow> dataframe" where
  "set_column df name vals =
     \<lparr>columns = columns df @ [name],
      cells = map (\<lambda>(r, v). r @ [v]) (zip (cells df) vals)\<rparr>"

text \<open>The first loop of \<^verbatim>\<open>analyze_teams\<close>, over the registry in its order.\<close>

fun apply_registry ::
  "(string \<times> (series \<Rightarrow> pyerr + bool)) list \<Rightarrow> series list \<Rightarrow> dataframe \<Rightarrow> pyerr + dataframe"
where
  "apply_registry [] srs analysis_df = Inr analysis_df"
| "apply_registry ((col_name, func) # fs) srs analysis_df =
     (case apply_rows func srs of
        Inl e \<Rightarrow> Inl e
      | Inr bs \<Rightarrow> apply_registry fs srs (set_column analysis_df col_name (map PyBool bs)))"

text \<open>
  \<^verbatim>\<open>.map({True: 'Yes', False: 'No'})\<close> on one cell; a value the dict does not
  have becomes NaN (the cells mapped here are all booleans).
\<close>

fun yes_no :: "pyval \<Rightarrow> pyval" where
  "yes_no (PyBool b) = PyStr (if b then ''Yes'' else ''No'')"
| "yes_no v = PyFloat NaN"

definition map_column :: "(pyval \<Rightarrow> pyval) \<Rightarrow> string \<Rightarrow> dataframe \<Rightarrow> dataframe" where
  "map_column f col df =
     df\<lparr>cells := map (\<lambda>r. map (\<lambda>(c, v). if c = col then f v else v) (zip (columns df) r))
                     (cells df)\<rparr>"

text \<open>
  \<^verbatim>\<open>analyze_teams\<close>. On a frame without rows pandas does not run
  \<^verbatim>\<open>apply\<close> row by row but probes the function on a made-up row; that path is
  not modelled, nor are frames that are not well formed.
\<close>

definition analyze_teams :: "dataframe \<Rightarrow> pyerr + dataframe" where
  "analyze_teams stats_df =
     (if well_formed stats_df \<and> cells stats_df \<noteq> [] then
        (case select_columns stats_df [''year'', ''team''] of
           Inl e \<Rightarrow> Inl e
         | Inr analysis_df \<Rightarrow>
             (case apply_registry ANALYSIS_FUNCTIONS
                     (map (row_series (columns stats_df)) (cells stats_df)) analysis_df of
                Inl e \<Rightarrow> Inl e
              | Inr with_bools \<Rightarrow>
                  Inr (fold (map_column yes_no) (map fst ANALYSIS_FUNCTIONS) with_bools)))
      else Inl NotModelled)"

section \<open>Roster entries, in the words of the specification\<close>

text \<open>
  A field of a record is text when it is absent or holds a string. A roster entry is a
  record with text in the given fields when it is a dict and each of these fields is text.
  Every PlayerRecord of the data model is one, for any of its five fields.
\<close>

definition text_field :: "(string \<times> pyval) list \<Rightarrow> string \<Rightarrow> bool" where
  "text_field kvs key =
     (case map_of kvs key of None \<Rightarrow> True | Some (PyStr s) \<Rightarrow> True | Some _ \<Rightarrow> False)"

fun record_with_text :: "string list \<Rightarrow> pyval \<Rightarrow> bool" where
  "record_with_text keys (PyDict kvs) = list_all (text_field kvs) keys"
| "record_with_text keys _ = False"

text \<open>
  A height is tall when it splits at the separator into exactly two parts, both integers,
  with \<open>feet * 12 + inches\<close> at least 78. An entry is tall when its height is a
  string that is.
\<close>

definition height_tall :: "string \<Rightarrow> bool" where
  "height_tall h =
     (case split_on CHR ''-'' h of
        [f, i] \<Rightarrow> (case (int_of_str f, int_of_str i) of
                     (Some feet, Some inches) \<Rightarrow> 78 \<le> feet * 12 + inches
                   | _ \<Rightarrow> False)
      | _ \<Rightarrow> False)"

fun tall_entry :: "pyval \<Rightarrow> bool" where
  "tall_entry (PyDict kvs) =
     (case map_of kvs ''height'' of Some (PyStr h) \<Rightarrow> height_tall h | _ \<Rightarrow> False)"
| "tall_entry _ = False"

text \<open>A guard-position entry: its position is exactly "G", "PG" or "SG".\<close>

fun guard_position :: "pyval \<Rightarrow> bool" where
  "guard_position (PyDict kvs) =
     (case map_of kvs ''pos'' of
        Some (PyStr pos) \<Rightarrow> pos \<in> {''G'', ''PG'', ''SG''}
      | _ \<Rightarrow> False)"
| "guard_position _ = False"

text \<open>
  The doubles, as rational numbers: the magnitudes \<open>m * 2 ^ k\<close> and
  \<open>m / 2 ^ k\<close> with a significand \<open>m\<close> below \<open>2 ^ 53\<close>, up to
  the largest double \<open>(2 ^ 53 - 1) * 2 ^ 971\<close> and down to the grid
  \<open>1 / 2 ^ 1074\<close> of the subnormal numbers. A double is even when it can be written
  with an even significand.
\<close>

definition is_double :: "rat \<Rightarrow> bool" where
  "is_double x \<longleftrightarrow>
     (\<exists>m k. m < (2::nat) ^ 53
        \<and> ((k \<le> 971 \<and> \<bar>x\<bar> = of_nat m * 2 ^ k) \<or> (k \<le> 1074 \<and> \<bar>x\<bar> = of_nat m / 2 ^ k)))"

definition even_double :: "rat \<Rightarrow> bool" where
  "even_double x \<longleftrightarrow>
     (\<exists>m k. 2 * m < (2::nat) ^ 53
        \<and> ((k \<le> 971 \<and> \<bar>x\<bar> = of_nat (2 * m) * 2 ^ k)
           \<or> (k \<le> 1074 \<and> \<bar>x\<bar> = of_nat (2 * m) / 2 ^ k)))"

text \<open>
  A number written in decimal is parsed as the double nearest to it and, of two doubles that
  are equally near, as the even one. The parsed number is strictly greater than a threshold
  when that double is: every nearest double is, or the even one of two is.
\<close>

definition nearest_double :: "rat \<Rightarrow> rat \<Rightarrow> bool" where
  "nearest_double v d \<longleftrightarrow> is_double d \<and> (\<forall>d'. is_double d' \<longrightarrow> \<bar>v - d\<bar> \<le> \<bar>v - d'\<bar>)"

definition float_exceeds :: "rat \<Rightarrow> rat \<Rightarrow> bool" where
  "float_exceeds v t \<longleftrightarrow>
     (\<exists>d. nearest_double v d)
     \<and> ((\<forall>d. nearest_double v d \<longrightarrow> t < d)
        \<or> (\<exists>d. nearest_double v d \<and> even_double d \<and> t < d))"

text \<open>White space, by character code: tab to carriage return, the four separators, the
  space, next line and the no-break space.\<close>

definition blank :: "char \<Rightarrow> bool" where
  "blank c \<longleftrightarrow> (of_char c :: nat) \<in> {9, 10, 11, 12, 13, 28, 29, 30, 31, 32, 133, 160}"

text \<open>
  A stats summary has a leading points figure when it starts with a number followed by the
  token "Pts": one or more digits, then optionally a decimal point and the digits after it,
  then white space, if any, and "Pts". The figure is given by its digits before and after
  the point.
\<close>

definition points_figure :: "string \<Rightarrow> string \<Rightarrow> string \<Rightarrow> bool" where
  "points_figure s whole decimals \<longleftrightarrow>
     (\<exists>dot ws rest.
        s = whole @ dot @ decimals @ ws @ ''Pts'' @ rest
        \<and> whole \<noteq> []
        \<and> (\<forall>c \<in> set whole. c \<in> set ''0123456789'')
        \<and> (\<forall>c \<in> set decimals. c \<in> set ''0123456789'')
        \<and> (dot = ''.'' \<or> dot = [] \<and> decimals = [])
        \<and> (\<forall>c \<in> set ws. blank c))"

text \<open>
  A stats summary yields a points figure above 15 when it has a leading points figure and
  the number that figure writes, parsed as a double, is strictly greater than 15. An entry
  has one when its stats summary is a string that does.
\<close>

definition summary_over_15 :: "string \<Rightarrow> bool" where
  "summary_over_15 s \<longleftrightarrow>
     (\<exists>whole decimals.
        points_figure s whole decimals
        \<and> float_exceeds
             (of_nat (digits_value whole) + of_nat (digits_value decimals) / 10 ^ length decimals)
             15)"

fun points_over_15 :: "pyval \<Rightarrow> bool" where
  "points_over_15 (PyDict kvs) =
     (case map_of kvs ''stats_summary'' of Some (PyStr s) \<Rightarrow> summary_over_15 s | _ \<Rightarrow> False)"
| "points_over_15 _ = False"

text \<open>
  The frame keeps the rows of \<open>base\<close>: its first two columns are year and team,
  every row is as long as the header, and the first two cells of the rows are, in order,
  the rows of \<open>base\<close>.
\<close>

definition keeps_rows :: "pyval list list \<Rightarrow> dataframe \<Rightarrow> bool" where
  "keeps_rows base df \<longleftrightarrow>
     take 2 (columns df) = [''year'', ''team'']
     \<and> list_all2 (\<lambda>r b. length r = length (columns df) \<and> take 2 r = b) (cells df) base"

subsection \<open>Example data\<close>

text \<open>
  One roster entry as the collector writes it, as text and as a value, and the text of a
  roster, as \<^verbatim>\<open>str\<close> prints a list.
\<close>

definition star_text :: string where
  "star_text = ''{'class': 'SR', 'pos': 'G', 'height': '6-8', 'rsci_rank': '5 (2021)', 'stats_summary': '20.1 Pts, 4.0 Reb'}''"

definition star :: pyval where
  "star = PyDict [(''class'', PyStr ''SR''), (''pos'', PyStr ''G''), (''height'', PyStr ''6-8''),
                  (''rsci_rank'', PyStr ''5 (2021)''),
                  (''stats_summary'', PyStr ''20.1 Pts, 4.0 Reb'')]"

fun join_entries :: "string list \<Rightarrow> string" where
  "join_entries [] = []"
| "join_entries [e] = e"
| "join_entries (e # es) = e @ '', '' @ join_entries es"

definition roster_text :: "string list \<Rightarrow> string" where
  "roster_text entries = ''['' @ join_entries entries @ '']''"

section \<open>Rank-threshold predicates: results\<close>

lemma int_of_str_examples:
  "int_of_str ''50'' = Some 50" "int_of_str ''51'' = Some 51" "int_of_str ''abc'' = None"
  "int_of_str ''300'' = Some 300" "int_of_str ''299'' = Some 299"
  "int_of_str ''0'' = Some 0" "int_of_str ''-5'' = Some (- 5)" "int_of_str '' 7 '' = Some 7"
  by (simp_all add: int_of_str_def strip_space_def int_space_def int_of_unsigned_def
       is_digit_def digits_value_def digit_val_def)

lemma rank_test_true:
  "except_return [ValueError, KeyError] False
     (case getitem row k of
        Inl e \<Rightarrow> Inl e
      | Inr v \<Rightarrow> (case py_int v of Inl e \<Rightarrow> Inl e | Inr rank \<Rightarrow> Inr (P rank))) = Inr True
   \<longleftrightarrow> (\<exists>v n. row k = Some v \<and> py_int v = Inr n \<and> P n)"
  by (auto simp: except_return_def getitem_def split: option.splits sum.splits)

lemma rank_test_false:
  "except_return [ValueError, KeyError] False
     (case getitem row k of
        Inl e \<Rightarrow> Inl e
      | Inr v \<Rightarrow> (case py_int v of Inl e \<Rightarrow> Inl e | Inr rank \<Rightarrow> Inr (P rank))) = Inr False
   \<longleftrightarrow> row k = None \<or> (\<exists>v. row k = Some v \<and> (py_int v = Inl ValueError
            \<or> py_int v = Inl KeyError \<or> (\<exists>n. py_int v = Inr n \<and> \<not> P n)))"
  by (auto simp: except_return_def getitem_def split: option.splits sum.splits)





text \<open>
  C10, as stated, also covers Protects the Ball, which is a rank-threshold predicate: on the
  turnover rank "0", a string that parses as an integer below 50, it returns false.
\<close>

theorem protects_basketball_low_rank_false:
  "int_of_str ''0'' = Some 0
   \<and> protects_basketball [''TOV Rank'' \<mapsto> PyStr ''0''] = Inr False"
  by (simp add: protects_basketball_def except_return_def getitem_def int_of_str_examples)

text \<open>
  C10, amended. The seven predicates that test a rank against 50 validate neither sign nor
  range: whenever the rank field holds a string that \<^verbatim>\<open>int\<close> parses as an
  integer that is at most 50, the predicate returns true. "0" and "-5" are such strings,
  and so is " 7 " with its surrounding spaces. Protects the Ball returns false whenever its
  rank field holds such a string.
\<close>

theorem at_most_50_no_range_validation:
  "(\<forall>(field, pred) \<in> set at_most_50_family.
      \<forall>s n. row field = Some (PyStr s) \<and> int_of_str s = Some n \<and> n \<le> 50
              \<longrightarrow> pred row = Inr True)
   \<and> int_of_str ''0'' = Some 0
   \<and> int_of_str ''-5'' = Some (- 5)
   \<and> int_of_str '' 7 '' = Some 7
   \<and> (\<forall>s n. row ''TOV Rank'' = Some (PyStr s) \<and> int_of_str s = Some n \<and> n \<le> 50
              \<longrightarrow> protects_basketball row = Inr False)"
  unfolding at_most_50_family_def is_good_scoring_team_def forces_turnovers_def
    high_volume_three_point_team_def elite_offensive_rebounding_def good_defense_def
    defends_three_point_def good_free_throw_team_def protects_basketball_def
  by (auto simp: rank_test_true rank_test_false int_of_str_examples)

theorem at_most_50_no_range_validation_witness:
  "is_good_scoring_team [''PTS Rank'' \<mapsto> PyStr ''0''] = Inr True
   \<and> forces_turnovers [''Opponent TOV Rank'' \<mapsto> PyStr ''-5''] = Inr True
   \<and> good_defense [''Opponent PTS Rank'' \<mapsto> PyStr '' 7 ''] = Inr True
   \<and> protects_basketball [''TOV Rank'' \<mapsto> PyStr ''-5''] = Inr False"
  using at_most_50_no_range_validation [of "[''PTS Rank'' \<mapsto> PyStr ''0'']"]
    at_most_50_no_range_validation [of "[''Opponent TOV Rank'' \<mapsto> PyStr ''-5'']"]
    at_most_50_no_range_validation [of "[''Opponent PTS Rank'' \<mapsto> PyStr '' 7 '']"]
    at_most_50_no_range_validation [of "[''TOV Rank'' \<mapsto> PyStr ''-5'']"]
  by (simp add: at_most_50_family_def)


section \<open>The roster parser: results\<close>

text \<open>
  C2 says that a literal of the wrong shape, one that is not a list of records, yields the
  empty sequence. The code returns every well-formed literal as it is: the text "5" gives
  the integer 5 and the text of a single record gives that record.
\<close>

theorem parse_roster_keeps_other_shapes:
  "parse_roster (PyStr ''5'') = Inr (PyInt 5)
   \<and> parse_roster (PyStr ''5'') \<noteq> Inr (PyList [])
   \<and> parse_roster (PyStr ''{'class': 'SR'}'') = Inr (PyDict [(''class'', PyStr ''SR'')])"
  by code_simp

text \<open>
  C2, amended. For every input value: a value that is not a string is passed through
  unchanged; a string is parsed as a literal, and when the parse fails with a ValueError
  or a SyntaxError the result is the empty sequence; when the parse gives a value, of
  whatever shape, the result is that value. Both failures occur: a roster text with an
  unquoted word in it is not a literal and fails with a ValueError, and one with its closing
  bracket missing fails with a SyntaxError.
\<close>

theorem parse_roster_outcomes:
  "(\<forall>s. literal_eval s = Inl ValueError \<or> literal_eval s = Inl SyntaxError
          \<longrightarrow> parse_roster (PyStr s) = Inr (PyList []))
   \<and> (\<forall>s v. literal_eval s = Inr v \<longrightarrow> parse_roster (PyStr s) = Inr v)
   \<and> ((\<forall>s. roster_str \<noteq> PyStr s) \<longrightarrow> parse_roster roster_str = Inr roster_str)
   \<and> literal_eval ''[{'class': SR}]'' = Inl ValueError
   \<and> literal_eval ''[{'class': 'SR'}, {'class': 'FR'}'' = Inl SyntaxError"
proof (intro conjI)
  show "\<forall>s. literal_eval s = Inl ValueError \<or> literal_eval s = Inl SyntaxError
          \<longrightarrow> parse_roster (PyStr s) = Inr (PyList [])"
    by (auto simp: parse_roster_def except_return_def)
  show "\<forall>s v. literal_eval s = Inr v \<longrightarrow> parse_roster (PyStr s) = Inr v"
    by (auto simp: parse_roster_def except_return_def)
  show "(\<forall>s. roster_str \<noteq> PyStr s) \<longrightarrow> parse_roster roster_str = Inr roster_str"
    by (cases roster_str) (auto simp: parse_roster_def)
  show "literal_eval ''[{'class': SR}]'' = Inl ValueError" by code_simp
  show "literal_eval ''[{'class': 'SR'}, {'class': 'FR'}'' = Inl SyntaxError" by code_simp
qed

theorem parse_roster_outcomes_witness:
  "parse_roster (PyStr ''[{'class': SR}]'') = Inr (PyList [])
   \<and> parse_roster (PyStr ''abc'') = Inr (PyList [])
   \<and> parse_roster (PyStr ''[{'class': 'SR'}, {'class': 'FR'}'') = Inr (PyList [])
   \<and> parse_roster (PyStr ''[{'class': 'SR'}, {'class': 'FR'}]'')
       = Inr (PyList [PyDict [(''class'', PyStr ''SR'')], PyDict [(''class'', PyStr ''FR'')]])
   \<and> parse_roster (PyFloat NaN) = Inr (PyFloat NaN)"
proof -
  have 0: "literal_eval ''abc'' = Inl ValueError"
    by code_simp
  have 2: "literal_eval ''[{'class': 'SR'}, {'class': 'FR'}]''
             = Inr (PyList [PyDict [(''class'', PyStr ''SR'')], PyDict [(''class'', PyStr ''FR'')]])"
    by code_simp
  have 3: "\<forall>s. PyFloat NaN \<noteq> PyStr s" by simp
  from 0 2 3 parse_roster_outcomes [of "PyFloat NaN"] show ?thesis by blast
qed

text \<open>
  A TypeError of the literal parser is not among the exceptions
  \<^verbatim>\<open>parse_roster\<close> catches: a dict display with a list as key raises through it.
\<close>

lemma parse_roster_unhashable_key: "parse_roster (PyStr ''{[]: 1}'') = Inl TypeError"
  by code_simp

section \<open>Roster predicates: results\<close>

lemma roster_top_5_list:
  assumes "row ''roster'' = Some cell" "parse_roster cell = Inr (PyList xs)"
  shows "roster_top_5 row = Inr (if length xs < 5 then None else Some (take 5 xs))"
  using assms by (auto simp: roster_top_5_def getitem_def)

lemma roster_top_5_short:
  assumes "row ''roster'' = Some cell" "parse_roster cell = Inr roster"
    and "py_len roster = Inr n" "n < 5"
  shows "roster_top_5 row = Inr None"
  using assms by (simp add: roster_top_5_def getitem_def)

lemma roster_top_5_Some:
  assumes "roster_top_5 row = Inr (Some t)"
  shows "\<exists>cell r. row ''roster'' = Some cell \<and> parse_roster cell = Inr r
           \<and> ((\<exists>xs. r = PyList xs \<and> 5 \<le> length xs \<and> t = take 5 xs)
              \<or> (\<exists>s. r = PyStr s \<and> 5 \<le> length s \<and> t = map (\<lambda>c. PyStr [c]) (take 5 s)))"
proof -
  from assms obtain cell r where c: "row ''roster'' = Some cell"
    and r: "parse_roster cell = Inr r"
    and t: "(case py_len r of
               Inl e \<Rightarrow> Inl e
             | Inr n \<Rightarrow>
                 if n < 5 then Inr None
                 else (case first_five r of
                         Inl e \<Rightarrow> Inl e
                       | Inr top_5 \<Rightarrow> Inr (Some top_5))) = Inr (Some t)"
    by (auto simp: roster_top_5_def getitem_def split: option.splits sum.splits if_splits)
  from t have "(\<exists>xs. r = PyList xs \<and> 5 \<le> length xs \<and> t = take 5 xs)
              \<or> (\<exists>s. r = PyStr s \<and> 5 \<le> length s \<and> t = map (\<lambda>c. PyStr [c]) (take 5 s))"
    by (cases r) (auto split: if_splits)
  with c r show ?thesis by blast
qed

lemma take_5_short: "take 5 ys = take 5 xs \<Longrightarrow> (length ys < 5) = (length xs < 5)"
proof -
  assume "take 5 ys = take 5 xs"
  then have "length (take 5 ys) = length (take 5 xs)" by simp
  then show ?thesis by (simp add: min_def split: if_splits)
qed

text \<open>
  C6. Each of the four roster predicates returns false whenever the parsed roster has fewer
  than five entries, whatever the entries are. On a roster that is a list the result
  depends only on its first five entries: two rows whose rosters agree on them get the
  same result from each predicate.
\<close>

theorem roster_predicates_first_five:
  assumes "row ''roster'' = Some cell" and "parse_roster cell = Inr roster"
  shows "(\<forall>n. py_len roster = Inr n \<and> n < 5 \<longrightarrow>
            has_experienced_core row = Inr False \<and> has_top_recruits row = Inr False
            \<and> has_scoring_guard row = Inr False \<and> has_size row = Inr False)
       \<and> (\<forall>row' cell' xs ys.
            roster = PyList xs \<and> row' ''roster'' = Some cell'
            \<and> parse_roster cell' = Inr (PyList ys) \<and> take 5 ys = take 5 xs \<longrightarrow>
              has_experienced_core row' = has_experienced_core row
              \<and> has_top_recruits row' = has_top_recruits row
              \<and> has_scoring_guard row' = has_scoring_guard row
              \<and> has_size row' = has_size row)"
proof (intro conjI impI allI)
  {
    fix n
    assume "py_len roster = Inr n \<and> n < 5"
    with assms have n: "roster_top_5 row = Inr None"
      using roster_top_5_short [of row cell roster n] by blast
    show "has_experienced_core row = Inr False"
      by (simp add: has_experienced_core_def n except_return_def)
    show "has_top_recruits row = Inr False"
      by (simp add: has_top_recruits_def n except_return_def)
    show "has_scoring_guard row = Inr False"
      by (simp add: has_scoring_guard_def n except_return_def)
    show "has_size row = Inr False"
      by (simp add: has_size_def n except_return_def)
  }
  fix row' cell' xs ys
  assume a: "roster = PyList xs \<and> row' ''roster'' = Some cell'
            \<and> parse_roster cell' = Inr (PyList ys) \<and> take 5 ys = take 5 xs"
  with assms have top: "roster_top_5 row = Inr (if length xs < 5 then None else Some (take 5 xs))"
    using roster_top_5_list [of row cell xs] by blast
  from a have "roster_top_5 row' = Inr (if length ys < 5 then None else Some (take 5 ys))"
    using roster_top_5_list [of row' cell' ys] by blast
  moreover from a have "(length ys < 5) = (length xs < 5)"
    using take_5_short [of ys xs] by blast
  ultimately have same: "roster_top_5 row' = roster_top_5 row"
    using a top by simp
  show "has_experienced_core row' = has_experienced_core row"
    by (simp add: has_experienced_core_def same)
  show "has_top_recruits row' = has_top_recruits row"
    by (simp add: has_top_recruits_def same)
  show "has_scoring_guard row' = has_scoring_guard row"
    by (simp add: has_scoring_guard_def same)
  show "has_size row' = has_size row"
    by (simp add: has_size_def same)
qed

theorem roster_predicates_first_five_witness:
  "has_experienced_core [''roster'' \<mapsto> PyStr (roster_text (replicate 4 star_text))] = Inr False
   \<and> has_top_recruits [''roster'' \<mapsto> PyStr (roster_text (replicate 4 star_text))] = Inr False
   \<and> has_scoring_guard [''roster'' \<mapsto> PyStr (roster_text (replicate 4 star_text))] = Inr False
   \<and> has_size [''roster'' \<mapsto> PyStr (roster_text (replicate 4 star_text))] = Inr False
   \<and> has_experienced_core [''roster'' \<mapsto> PyStr (roster_text (replicate 5 star_text @ [''7'']))]
       = has_experienced_core [''roster'' \<mapsto> PyStr (roster_text (replicate 5 star_text))]
   \<and> has_size [''roster'' \<mapsto> PyStr (roster_text (replicate 5 star_text @ [''7'']))]
       = has_size [''roster'' \<mapsto> PyStr (roster_text (replicate 5 star_text))]"
proof -
  let ?t4 = "PyStr (roster_text (replicate 4 star_text))"
  let ?t5 = "PyStr (roster_text (replicate 5 star_text))"
  let ?t6 = "PyStr (roster_text (replicate 5 star_text @ [''7'']))"
  have p4: "parse_roster ?t4 = Inr (PyList (replicate 4 star))" by code_simp
  have p5: "parse_roster ?t5 = Inr (PyList (replicate 5 star))" by code_simp
  have p6: "parse_roster ?t6 = Inr (PyList (replicate 5 star @ [PyInt 7]))" by code_simp
  have l4: "py_len (PyList (replicate 4 star)) = Inr 4 \<and> (4::nat) < 5" by simp
  have same: "take 5 (replicate 5 star @ [PyInt 7]) = take 5 (replicate 5 star)" by simp
  have c4: "[''roster'' \<mapsto> ?t4] ''roster'' = Some ?t4" by simp
  have c5: "[''roster'' \<mapsto> ?t5] ''roster'' = Some ?t5" by simp
  have c6: "[''roster'' \<mapsto> ?t6] ''roster'' = Some ?t6" by simp
  from roster_predicates_first_five
         [of "[''roster'' \<mapsto> ?t4]" ?t4 "PyList (replicate 4 star)", OF c4 p4] l4
  have short: "has_experienced_core [''roster'' \<mapsto> ?t4] = Inr False
     \<and> has_top_recruits [''roster'' \<mapsto> ?t4] = Inr False
     \<and> has_scoring_guard [''roster'' \<mapsto> ?t4] = Inr False
     \<and> has_size [''roster'' \<mapsto> ?t4] = Inr False"
    by blast
  from roster_predicates_first_five
         [of "[''roster'' \<mapsto> ?t5]" ?t5 "PyList (replicate 5 star)", OF c5 p5]
    c6 p6 same
  have "has_experienced_core [''roster'' \<mapsto> ?t6] = has_experienced_core [''roster'' \<mapsto> ?t5]
     \<and> has_size [''roster'' \<mapsto> ?t6] = has_size [''roster'' \<mapsto> ?t5]"
    by blast
  with short show ?thesis by blast
qed

subsection \<open>Has Size\<close>

lemma unpack2_strings:
  "unpack2 (map (\<lambda>p. py_int (PyStr p)) parts) =
     (case parts of
        [f, i] \<Rightarrow> (case (int_of_str f, int_of_str i) of
                     (Some feet, Some inches) \<Rightarrow> Inr (feet, inches)
                   | _ \<Rightarrow> Inl ValueError)
      | _ \<Rightarrow> Inl ValueError)"
proof (cases parts)
  case Nil
  then show ?thesis by simp
next
  case (Cons a as)
  note p1 = this
  show ?thesis
  proof (cases as)
    case Nil
    with p1 show ?thesis by (simp split: option.splits)
  next
    case (Cons b bs)
    note p2 = this
    show ?thesis
    proof (cases bs)
      case Nil
      with p1 p2 show ?thesis by (simp split: option.splits)
    next
      case (Cons c cs)
      with p1 p2 show ?thesis by (simp split: option.splits)
    qed
  qed
qed

lemma feet_inches_tall:
  "(case feet_inches (PyStr h) of
      Inl e \<Rightarrow> if e = ValueError then Inr False else Inl e
    | Inr (feet, inches) \<Rightarrow> Inr (78 \<le> feet * 12 + inches)) = Inr (height_tall h)"
  by (simp add: feet_inches_def unpack2_strings height_tall_def
        split: list.splits option.splits)

lemma size_loop_step:
  assumes "record_with_text [''height''] p"
  shows "size_loop (p # rest) n = size_loop rest (if tall_entry p then n + 1 else n)"
proof -
  from assms obtain kvs where p: "p = PyDict kvs" and tf: "text_field kvs ''height''"
    by (cases p) simp_all
  show ?thesis
  proof (cases "map_of kvs ''height''")
    case None
    with p show ?thesis by simp
  next
    case (Some v)
    with tf obtain h where v: "v = PyStr h"
      by (cases v) (simp_all add: text_field_def)
    show ?thesis
    proof (cases "h = []")
      case True
      with p Some v show ?thesis by (simp add: height_tall_def)
    next
      case False
      with p Some v feet_inches_tall [of h] show ?thesis
        by (auto split: sum.splits if_splits)
    qed
  qed
qed

lemma size_loop_records:
  "\<forall>p \<in> set ps. record_with_text [''height''] p \<Longrightarrow>
     size_loop ps n = Inr (n + length (filter tall_entry ps))"
proof (induction ps arbitrary: n)
  case Nil
  then show ?case by simp
next
  case (Cons p ps)
  then have "record_with_text [''height''] p"
    and rest: "\<forall>q \<in> set ps. record_with_text [''height''] q" by simp_all
  then have "size_loop (p # ps) n = size_loop ps (if tall_entry p then n + 1 else n)"
    by (simp only: size_loop_step)
  also have "\<dots> = Inr ((if tall_entry p then n + 1 else n) + length (filter tall_entry ps))"
    using rest by (rule Cons.IH)
  finally show ?case by simp
qed

text \<open>
  C7. On a roster whose first five entries are records with a text height, Has Size returns
  true exactly when the roster has five entries and at least three of the first five are
  tall: their height string splits at the separator into two integers with
  \<open>feet * 12 + inches\<close> at least 78. An entry whose height is empty, or does not split or
  parse, is not counted, and the count goes on over the other entries: the predicate
  returns a boolean in every case.
\<close>

theorem has_size_three_of_first_five:
  assumes "row ''roster'' = Some cell" and "parse_roster cell = Inr (PyList xs)"
    and "\<forall>p \<in> set (take 5 xs). record_with_text [''height''] p"
  shows "has_size row = Inr (5 \<le> length xs \<and> 3 \<le> length (filter tall_entry (take 5 xs)))"
proof -
  have top: "roster_top_5 row = Inr (if length xs < 5 then None else Some (take 5 xs))"
    using assms(1,2) by (rule roster_top_5_list)
  show ?thesis
  proof (cases "length xs < 5")
    case True
    with top show ?thesis by (simp add: has_size_def except_return_def)
  next
    case False
    moreover have "size_loop (take 5 xs) 0 = Inr (0 + length (filter tall_entry (take 5 xs)))"
      using assms(3) by (rule size_loop_records)
    ultimately show ?thesis
      using top by (simp add: has_size_def except_return_def)
  qed
qed

theorem has_size_three_of_first_five_witness:
  "has_size [''roster'' \<mapsto> PyStr ''[{'height': '6-8'}, {'height': 'N/A'}, {'height': '6-9'}, {'height': '5-9'}, {'height': '7-0'}]''] = Inr True
   \<and> has_size [''roster'' \<mapsto> PyStr ''[{'height': '6-8'}, {'height': 'N/A'}, {'height': '6-9'}, {'height': '5-9'}, {'height': '6-1'}]''] = Inr False"
proof -
  let ?a = "PyStr ''[{'height': '6-8'}, {'height': 'N/A'}, {'height': '6-9'}, {'height': '5-9'}, {'height': '7-0'}]''"
  let ?b = "PyStr ''[{'height': '6-8'}, {'height': 'N/A'}, {'height': '6-9'}, {'height': '5-9'}, {'height': '6-1'}]''"
  let ?xs = "[PyDict [(''height'', PyStr ''6-8'')], PyDict [(''height'', PyStr ''N/A'')],
              PyDict [(''height'', PyStr ''6-9'')], PyDict [(''height'', PyStr ''5-9'')],
              PyDict [(''height'', PyStr ''7-0'')]]"
  let ?ys = "[PyDict [(''height'', PyStr ''6-8'')], PyDict [(''height'', PyStr ''N/A'')],
              PyDict [(''height'', PyStr ''6-9'')], PyDict [(''height'', PyStr ''5-9'')],
              PyDict [(''height'', PyStr ''6-1'')]]"
  have ca: "[''roster'' \<mapsto> ?a] ''roster'' = Some ?a" by simp
  have cb: "[''roster'' \<mapsto> ?b] ''roster'' = Some ?b" by simp
  have pa: "parse_roster ?a = Inr (PyList ?xs)" by code_simp
  have pb: "parse_roster ?b = Inr (PyList ?ys)" by code_simp
  have ra: "\<forall>p \<in> set (take 5 ?xs). record_with_text [''height''] p"
    by (simp add: text_field_def)
  have rb: "\<forall>p \<in> set (take 5 ?ys). record_with_text [''height''] p"
    by (simp add: text_field_def)
  have ta: "(5 \<le> length ?xs \<and> 3 \<le> length (filter tall_entry (take 5 ?xs))) = True"
    by code_simp
  have tb: "(5 \<le> length ?ys \<and> 3 \<le> length (filter tall_entry (take 5 ?ys))) = False"
    by code_simp
  from has_size_three_of_first_five [of "[''roster'' \<mapsto> ?a]" ?a ?xs, OF ca pa ra]
    has_size_three_of_first_five [of "[''roster'' \<mapsto> ?b]" ?b ?ys, OF cb pb rb]
  show ?thesis by (simp only: ta tb)
qed

subsection \<open>Parsing a decimal as a double\<close>

text \<open>
  15 is a double and the double after it is \<open>15 + 1 / 2 ^ 49\<close>; of the two, only 15
  is even. So a number is parsed as a double above 15 exactly when it lies above their
  midpoint, which is what \<^verbatim>\<open>float(g) > 15\<close> computes.
\<close>

lemma double_15: "is_double 15"
  unfolding is_double_def
  by (rule exI [of _ 15], rule exI [of _ 0]) simp

lemma double_after_15: "is_double (15 + 1 / 2 ^ 49)"
  unfolding is_double_def
  by (rule exI [of _ "15 * 2 ^ 49 + 1"], rule exI [of _ 49]) simp

lemma times_pow_of_div:
  fixes x :: rat
  shows "x = y / 2 ^ k \<Longrightarrow> x * 2 ^ k = y"
  by simp

lemma scale_up:
  fixes d :: rat
  assumes "d * 2 ^ k = of_nat m" and "k \<le> p"
  shows "d * 2 ^ p = of_nat (m * 2 ^ (p - k))"
proof -
  from assms(2) have "(2::rat) ^ p = 2 ^ k * 2 ^ (p - k)"
    by (simp add: power_add [symmetric])
  then have "d * 2 ^ p = (d * 2 ^ k) * 2 ^ (p - k)"
    by (simp only: mult.assoc)
  with assms(1) show ?thesis by simp
qed

lemma grid_gap:
  fixes d :: rat
  assumes "d * 2 ^ k = of_nat m" and "k \<le> p" and "of_nat n < d * 2 ^ p"
  shows "of_nat (Suc n) \<le> d * 2 ^ p"
proof -
  have eq: "d * 2 ^ p = of_nat (m * 2 ^ (p - k))"
    using assms(1,2) by (rule scale_up)
  with assms(3) have "(of_nat n :: rat) < of_nat (m * 2 ^ (p - k))" by simp
  then have "n < m * 2 ^ (p - k)" by (simp only: of_nat_less_iff)
  then have "Suc n \<le> m * 2 ^ (p - k)" by simp
  then have "(of_nat (Suc n) :: rat) \<le> of_nat (m * 2 ^ (p - k))"
    by (simp only: of_nat_le_iff)
  with eq show ?thesis by simp
qed

lemma small_below:
  fixes d :: rat
  assumes "d * 2 ^ k = of_nat m" and "m < 2 ^ q" and "p \<le> k"
  shows "d * 2 ^ p < 2 ^ q"
proof -
  from assms(3) have "(2::rat) ^ k = 2 ^ p * 2 ^ (k - p)"
    by (simp add: power_add [symmetric])
  then have "d * 2 ^ k = (d * 2 ^ p) * 2 ^ (k - p)"
    by (simp only: mult.assoc)
  with assms(1) have "(d * 2 ^ p) * 2 ^ (k - p) = of_nat m" by simp
  moreover from assms(2) have "(of_nat m :: rat) < of_nat (2 ^ q)"
    by (simp only: of_nat_less_iff)
  ultimately have lt: "(d * 2 ^ p) * 2 ^ (k - p) < 2 ^ q" by simp
  show ?thesis
  proof (rule ccontr)
    assume "\<not> d * 2 ^ p < 2 ^ q"
    then have ge: "(2::rat) ^ q \<le> d * 2 ^ p" by simp
    have "(0::rat) \<le> 2 ^ q" by simp
    with ge have nonneg: "0 \<le> d * 2 ^ p" by (rule order_trans [rotated])
    have "(1::rat) \<le> 2 ^ (k - p)" by simp
    with nonneg have "(d * 2 ^ p) * 1 \<le> (d * 2 ^ p) * 2 ^ (k - p)"
      by (rule mult_left_mono [rotated])
    with ge have "(2::rat) ^ q \<le> (d * 2 ^ p) * 2 ^ (k - p)" by simp
    with lt show False by simp
  qed
qed

lemma double_gap_15:
  assumes "is_double d" and "15 < d"
  shows "15 + 1 / 2 ^ 49 \<le> d"
proof -
  from assms(2) have pos: "\<bar>d\<bar> = d" by simp
  from assms(1) obtain m k where m: "m < (2::nat) ^ 53"
    and rep: "(k \<le> 971 \<and> d = of_nat m * 2 ^ k) \<or> (k \<le> 1074 \<and> d = of_nat m / 2 ^ k)"
    unfolding is_double_def pos by blast
  from rep show ?thesis
  proof
    assume "k \<le> 971 \<and> d = of_nat m * 2 ^ k"
    then have d: "d = of_nat (m * 2 ^ k)" by simp
    with assms(2) have "(of_nat 15 :: rat) < of_nat (m * 2 ^ k)" by simp
    then have "15 < m * 2 ^ k" by (simp only: of_nat_less_iff)
    then have "16 \<le> m * 2 ^ k" by simp
    then have "(of_nat 16 :: rat) \<le> of_nat (m * 2 ^ k)" by (simp only: of_nat_le_iff)
    with d have "16 \<le> d" by simp
    then show ?thesis by simp
  next
    assume a: "k \<le> 1074 \<and> d = of_nat m / 2 ^ k"
    then have "d = of_nat m / 2 ^ k" ..
    then have dk: "d * 2 ^ k = of_nat m" by (rule times_pow_of_div)
    show ?thesis
    proof (cases "k \<le> 49")
      case True
      from assms(2) have "of_nat (15 * 2 ^ 49) < d * 2 ^ 49" by simp
      with dk True have "of_nat (Suc (15 * 2 ^ 49)) \<le> d * 2 ^ 49"
        by (rule grid_gap)
      then show ?thesis by (simp add: field_simps)
    next
      case False
      then have "50 \<le> k" by simp
      with dk m have "d * 2 ^ 50 < 2 ^ 53" by (rule small_below)
      with assms(2) show ?thesis by simp
    qed
  qed
qed

lemma not_even_after_15: "\<not> even_double (15 + 1 / 2 ^ 49)"
proof
  let ?x = "15 + 1 / 2 ^ 49 :: rat"
  assume "even_double ?x"
  then obtain m k where m: "2 * m < (2::nat) ^ 53"
    and rep: "(k \<le> 971 \<and> ?x = of_nat (2 * m) * 2 ^ k)
            \<or> (k \<le> 1074 \<and> ?x = of_nat (2 * m) / 2 ^ k)"
    unfolding even_double_def by auto
  have x49: "?x * 2 ^ 49 = of_nat (Suc (15 * 2 ^ 49))" by simp
  from rep show False
  proof
    assume "k \<le> 971 \<and> ?x = of_nat (2 * m) * 2 ^ k"
    then have "?x * 2 ^ 49 = of_nat (2 * (m * 2 ^ k * 2 ^ 49))" by simp
    with x49 have "(of_nat (Suc (15 * 2 ^ 49)) :: rat) = of_nat (2 * (m * 2 ^ k * 2 ^ 49))"
      by simp
    then have "Suc (15 * 2 ^ 49) = 2 * (m * 2 ^ k * 2 ^ 49)"
      by (simp only: of_nat_eq_iff)
    then have "even (Suc (15 * 2 ^ 49))" by (simp only: even_mult_iff) simp
    then show False by simp
  next
    assume a: "k \<le> 1074 \<and> ?x = of_nat (2 * m) / 2 ^ k"
    then have "?x = of_nat (2 * m) / 2 ^ k" ..
    then have xk: "?x * 2 ^ k = of_nat (2 * m)" by (rule times_pow_of_div)
    show False
    proof (cases "k \<le> 49")
      case True
      with xk have "?x * 2 ^ 49 = of_nat (2 * m * 2 ^ (49 - k))" by (rule scale_up)
      with x49 have "(of_nat (Suc (15 * 2 ^ 49)) :: rat) = of_nat (2 * m * 2 ^ (49 - k))"
        by simp
      then have "Suc (15 * 2 ^ 49) = 2 * m * 2 ^ (49 - k)"
        by (simp only: of_nat_eq_iff)
      then have "even (Suc (15 * 2 ^ 49))" by (simp only: even_mult_iff) simp
      then show False by simp
    next
      case False
      then have "50 \<le> k" by simp
      with xk m have "?x * 2 ^ 50 < 2 ^ 53" by (rule small_below)
      then show False by simp
    qed
  qed
qed


lemma finite_doubles: "finite {d. is_double d}"
proof -
  let ?S = "{..< (2::nat) ^ 53} \<times> {.. (1074::nat)}"
  let ?up = "\<lambda>(m, k). (of_nat m * 2 ^ k :: rat)"
  let ?down = "\<lambda>(m, k). (of_nat m / 2 ^ k :: rat)"
  have fin: "finite (?up ` ?S \<union> uminus ` ?up ` ?S \<union> ?down ` ?S \<union> uminus ` ?down ` ?S)"
    by simp
  have "{d. is_double d} \<subseteq> ?up ` ?S \<union> uminus ` ?up ` ?S \<union> ?down ` ?S \<union> uminus ` ?down ` ?S"
  proof
    fix d
    assume "d \<in> {d. is_double d}"
    then obtain m k where m: "m < (2::nat) ^ 53"
      and rep: "(k \<le> 971 \<and> \<bar>d\<bar> = of_nat m * 2 ^ k) \<or> (k \<le> 1074 \<and> \<bar>d\<bar> = of_nat m / 2 ^ k)"
      unfolding is_double_def by blast
    from rep show "d \<in> ?up ` ?S \<union> uminus ` ?up ` ?S \<union> ?down ` ?S \<union> uminus ` ?down ` ?S"
    proof
      assume a: "k \<le> 971 \<and> \<bar>d\<bar> = of_nat m * 2 ^ k"
      with m have mem: "(m, k) \<in> ?S" by simp
      from a have "d = ?up (m, k) \<or> d = - ?up (m, k)" by (auto simp: abs_if split: if_splits)
      with mem show ?thesis by blast
    next
      assume a: "k \<le> 1074 \<and> \<bar>d\<bar> = of_nat m / 2 ^ k"
      with m have mem: "(m, k) \<in> ?S" by simp
      from a have "d = ?down (m, k) \<or> d = - ?down (m, k)" by (auto simp: abs_if split: if_splits)
      with mem show ?thesis by blast
    qed
  qed
  then show ?thesis using fin by (rule finite_subset)
qed

lemma nearest_double_exists: "\<exists>d. nearest_double v d"
proof -
  let ?D = "{d. is_double d}"
  let ?f = "\<lambda>d. \<bar>v - d\<bar>"
  have fin: "finite (?f ` ?D)" using finite_doubles by (rule finite_imageI)
  have ne: "?f ` ?D \<noteq> {}" using double_15 by blast
  from fin ne have "Min (?f ` ?D) \<in> ?f ` ?D" by (rule Min_in)
  then obtain d where d: "is_double d" and min: "?f d = Min (?f ` ?D)" by auto
  have "\<forall>d'. is_double d' \<longrightarrow> ?f d \<le> ?f d'"
  proof (intro allI impI)
    fix d'
    assume "is_double d'"
    then have "?f d' \<in> ?f ` ?D" by blast
    with fin have "Min (?f ` ?D) \<le> ?f d'" by (rule Min_le)
    with min show "?f d \<le> ?f d'" by simp
  qed
  with d show ?thesis unfolding nearest_double_def by blast
qed

lemma nearest_above_midpoint:
  assumes "15 + 1 / 2 ^ 50 < v" and "nearest_double v d"
  shows "15 < d"
proof (rule ccontr)
  assume "\<not> 15 < d"
  then have le: "d \<le> 15" by simp
  from assms(2) double_after_15 have "\<bar>v - d\<bar> \<le> \<bar>v - (15 + 1 / 2 ^ 49)\<bar>"
    unfolding nearest_double_def by blast
  with le assms(1) show False by (simp add: abs_if split: if_splits)
qed

lemma nearest_at_most_midpoint:
  assumes "v \<le> 15 + 1 / 2 ^ 50" and "nearest_double v d" and "15 < d"
  shows "v = 15 + 1 / 2 ^ 50 \<and> d = 15 + 1 / 2 ^ 49"
proof -
  from assms(2) have "is_double d" unfolding nearest_double_def by blast
  then have ge: "15 + 1 / 2 ^ 49 \<le> d" using assms(3) by (rule double_gap_15)
  from assms(2) double_15 have "\<bar>v - d\<bar> \<le> \<bar>v - 15\<bar>"
    unfolding nearest_double_def by blast
  with ge assms(1) show ?thesis by (simp add: abs_if split: if_splits)
qed

lemma float_exceeds_15: "float_exceeds v 15 \<longleftrightarrow> 15 + 1 / 2 ^ 50 < v"
proof
  assume gt: "15 + 1 / 2 ^ 50 < v"
  then have "\<forall>d. nearest_double v d \<longrightarrow> 15 < d"
    using nearest_above_midpoint by blast
  with nearest_double_exists [of v] show "float_exceeds v 15"
    unfolding float_exceeds_def by blast
next
  assume fe: "float_exceeds v 15"
  show "15 + 1 / 2 ^ 50 < v"
  proof (rule ccontr)
    assume "\<not> 15 + 1 / 2 ^ 50 < v"
    then have le: "v \<le> 15 + 1 / 2 ^ 50" by simp
    from fe obtain d0 where d0: "nearest_double v d0"
      and alt: "(\<forall>d. nearest_double v d \<longrightarrow> 15 < d)
              \<or> (\<exists>d. nearest_double v d \<and> even_double d \<and> 15 < d)"
      unfolding float_exceeds_def by blast
    from alt obtain d where d: "nearest_double v d" "15 < d"
      using d0 by blast
    with le have mid: "v = 15 + 1 / 2 ^ 50" and dn: "d = 15 + 1 / 2 ^ 49"
      using nearest_at_most_midpoint by blast+
    have tie: "\<bar>v - 15\<bar> = \<bar>v - d\<bar>" unfolding mid dn by simp
    from d(1) have "nearest_double v 15"
      unfolding nearest_double_def using double_15 tie by simp
    from alt show False
    proof
      assume "\<forall>d. nearest_double v d \<longrightarrow> 15 < d"
      with \<open>nearest_double v 15\<close> have "(15::rat) < 15" by blast
      then show False by simp
    next
      assume "\<exists>d. nearest_double v d \<and> even_double d \<and> 15 < d"
      then obtain e where e: "nearest_double v e" "even_double e" "15 < e" by blast
      with le have "e = 15 + 1 / 2 ^ 49" using nearest_at_most_midpoint by blast
      with e(2) not_even_after_15 show False by simp
    qed
  qed
qed

lemma float_exceeds_15_short:
  fixes a b k :: nat
  assumes "k \<le> 15"
  shows "float_exceeds (of_nat a + of_nat b / 10 ^ k) 15
           \<longleftrightarrow> (15 :: rat) < of_nat a + of_nat b / 10 ^ k"
proof -
  let ?v = "of_nat a + of_nat b / 10 ^ k :: rat"
  have v: "?v * 10 ^ k = of_nat (a * 10 ^ k + b)" by (simp add: field_simps)
  have "15 + 1 / 2 ^ 50 < ?v" if "15 < ?v"
  proof -
    from that have "15 * 10 ^ k < ?v * 10 ^ k" by simp
    then have "(of_nat (15 * 10 ^ k) :: rat) < of_nat (a * 10 ^ k + b)"
      unfolding v by simp
    then have "15 * 10 ^ k < a * 10 ^ k + b" by (simp only: of_nat_less_iff)
    then have "Suc (15 * 10 ^ k) \<le> a * 10 ^ k + b" by simp
    then have "(of_nat (Suc (15 * 10 ^ k)) :: rat) \<le> of_nat (a * 10 ^ k + b)"
      by (simp only: of_nat_le_iff)
    then have "15 * 10 ^ k + 1 \<le> ?v * 10 ^ k" unfolding v by simp
    moreover have "(15 + 1 / 10 ^ k) * 10 ^ k = 15 * 10 ^ k + (1::rat)"
      by (simp add: distrib_right)
    ultimately have "(15 + 1 / 10 ^ k) * 10 ^ k \<le> ?v * 10 ^ k" by (simp only:)
    then have 1: "15 + 1 / 10 ^ k \<le> ?v" by simp
    have "(10::rat) ^ k \<le> 10 ^ 15" using assms by (intro power_increasing) simp_all
    also have "\<dots> < 2 ^ 50" by simp
    finally have "(10::rat) ^ k < 2 ^ 50" .
    then have "1 / 2 ^ 50 < 1 / (10::rat) ^ k"
      by (intro divide_strict_left_mono) simp_all
    then have "15 + 1 / 2 ^ 50 < 15 + 1 / (10::rat) ^ k" by (rule add_strict_left_mono)
    also note 1
    finally show ?thesis .
  qed
  moreover have "15 < ?v" if "15 + 1 / 2 ^ 50 < ?v"
  proof -
    have "(15::rat) < 15 + 1 / 2 ^ 50" by simp
    from this that show ?thesis by (rule less_trans)
  qed
  ultimately show ?thesis unfolding float_exceeds_15 by blast
qed

subsection \<open>The points figure\<close>

lemma blank_iff: "blank c \<longleftrightarrow> re_space c"
proof -
  have eq: "c = d \<longleftrightarrow> (of_char c :: nat) = of_char d" for d by simp
  show ?thesis unfolding blank_def re_space_def by (simp add: eq del: of_char_eq_iff)
qed

lemma points_figure_iff:
  "points_figure s w f \<longleftrightarrow>
     (\<exists>dot ws rest.
        s = w @ dot @ f @ ws @ ''Pts'' @ rest \<and> w \<noteq> []
        \<and> (\<forall>c \<in> set w. is_digit c) \<and> (\<forall>c \<in> set f. is_digit c)
        \<and> (dot = ''.'' \<or> dot = [] \<and> f = []) \<and> (\<forall>c \<in> set ws. re_space c))"
  unfolding points_figure_def is_digit_def blank_iff ..

lemma space_not_digit: "re_space c \<Longrightarrow> \<not> is_digit c \<and> c \<noteq> CHR ''.''"
  by (auto simp: re_space_def is_digit_def)

lemma dot_not_digit: "\<not> is_digit CHR ''.''"
  by (simp add: is_digit_def)

lemma pts_tail:
  assumes "\<forall>c \<in> set ws. re_space c"
  shows "takeWhile is_digit (ws @ ''Pts'' @ rest) = []"
    and "take 1 (ws @ ''Pts'' @ rest) \<noteq> ''.''"
    and "dropWhile re_space (ws @ ''Pts'' @ rest) = ''Pts'' @ rest"
proof -
  show "takeWhile is_digit (ws @ ''Pts'' @ rest) = []"
    using assms by (cases ws) (auto simp: is_digit_def re_space_def)
  show "take 1 (ws @ ''Pts'' @ rest) \<noteq> ''.''"
    using assms by (cases ws) (auto simp: re_space_def)
  have "dropWhile re_space (ws @ ''Pts'' @ rest) = dropWhile re_space (''Pts'' @ rest)"
    using assms by (intro dropWhile_append2) simp
  then show "dropWhile re_space (ws @ ''Pts'' @ rest) = ''Pts'' @ rest"
    by (simp add: re_space_def)
qed

lemma takeWhile_all:
  assumes "\<forall>c \<in> set xs. P c" and "takeWhile P ys = []"
  shows "takeWhile P (xs @ ys) = xs"
  using assms by (simp add: takeWhile_append2)

lemma pts_group_of_figure:
  assumes s: "s = w @ dot @ f @ ws @ ''Pts'' @ rest"
    and w: "w \<noteq> []" "\<forall>c \<in> set w. is_digit c"
    and f: "\<forall>c \<in> set f. is_digit c"
    and dot: "dot = ''.'' \<or> dot = [] \<and> f = []"
    and ws: "\<forall>c \<in> set ws. re_space c"
  shows "pts_group s = Some (w @ dot @ f)"
    and "decimal_value (w @ dot @ f)
           = of_nat (digits_value w) + of_nat (digits_value f) / 10 ^ length f"
proof -
  let ?t = "ws @ ''Pts'' @ rest"
  note tail = pts_tail [OF ws, of rest]
  from dot show "pts_group s = Some (w @ dot @ f)"
  proof
    assume d: "dot = ''.''"
    have d1: "takeWhile is_digit s = w"
      unfolding s d using w(2) by (intro takeWhile_all) (simp_all add: dot_not_digit)
    have r1: "drop (length w) s = ''.'' @ f @ ?t" unfolding s d by simp
    have d2: "takeWhile is_digit (f @ ?t) = f"
      using f tail(1) by (rule takeWhile_all)
    show ?thesis
      unfolding pts_group_def Let_def d1 r1 using w(1) d d2 tail(3) by simp
  next
    assume d: "dot = [] \<and> f = []"
    have d1: "takeWhile is_digit s = w"
      unfolding s using d w(2) tail(1) by (simp add: takeWhile_all)
    have r1: "drop (length w) s = ?t" unfolding s using d by simp
    show ?thesis
      unfolding pts_group_def Let_def d1 r1 using w(1) d tail(2,3) by simp
  qed
  from dot show "decimal_value (w @ dot @ f)
           = of_nat (digits_value w) + of_nat (digits_value f) / 10 ^ length f"
  proof
    assume d: "dot = ''.''"
    have "takeWhile is_digit (w @ ''.'' @ f) = w"
      using w(2) by (intro takeWhile_all) (simp_all add: dot_not_digit)
    then show ?thesis unfolding decimal_value_def d by (simp add: Let_def)
  next
    assume d: "dot = [] \<and> f = []"
    have tw: "takeWhile is_digit w = w" using w(2) by (simp add: takeWhile_eq_all_conv)
    from d show ?thesis unfolding decimal_value_def Let_def
      by (simp add: tw digits_value_def)
  qed
qed

lemma figure_of_pts_group:
  assumes "pts_group s = Some g"
  obtains w dot f ws rest
    where "s = w @ dot @ f @ ws @ ''Pts'' @ rest" and "g = w @ dot @ f"
      and "w \<noteq> []" and "\<forall>c \<in> set w. is_digit c" and "\<forall>c \<in> set f. is_digit c"
      and "dot = ''.'' \<or> dot = [] \<and> f = []" and "\<forall>c \<in> set ws. re_space c"
proof -
  define d1 where "d1 = takeWhile is_digit s"
  define r1 where "r1 = drop (length d1) s"
  define x where "x = drop 1 r1"
  define d2 where "d2 = takeWhile is_digit x"
  define r2 where "r2 = (if take 1 r1 = ''.'' then drop (length d2) x else r1)"
  define ws where "ws = takeWhile re_space r2"
  define u where "u = dropWhile re_space r2"
  from assms have ne: "d1 \<noteq> []" and pts: "take 3 u = ''Pts''"
    and g: "g = (if take 1 r1 = ''.'' then d1 @ ''.'' @ d2 else d1)"
    unfolding pts_group_def d1_def r1_def d2_def r2_def u_def x_def
    by (auto simp: Let_def split: if_splits)
  have s1: "s = d1 @ r1"
    unfolding d1_def r1_def by (simp add: dropWhile_eq_drop [symmetric])
  have dig1: "\<forall>c \<in> set d1. is_digit c"
    unfolding d1_def by (auto dest: set_takeWhileD)
  have dig2: "\<forall>c \<in> set d2. is_digit c"
    unfolding d2_def by (auto dest: set_takeWhileD)
  have sp: "\<forall>c \<in> set ws. re_space c"
    unfolding ws_def by (auto dest: set_takeWhileD)
  have r2s: "r2 = ws @ u" unfolding ws_def u_def by simp
  from pts have "u = ''Pts'' @ drop 3 u"
    by (metis append_take_drop_id)
  with r2s have r2p: "r2 = ws @ ''Pts'' @ drop 3 u" by simp
  show ?thesis
  proof (cases "take 1 r1 = ''.''")
    case True
    then have a: "r1 = ''.'' @ x" unfolding x_def by (metis append_take_drop_id)
    have b: "x = d2 @ drop (length d2) x"
      unfolding d2_def by (simp add: dropWhile_eq_drop [symmetric])
    from True have c: "r2 = drop (length d2) x"
      unfolding r2_def by simp
    from a b c have "r1 = ''.'' @ d2 @ r2" by simp
    with s1 r2p have s2: "s = d1 @ ''.'' @ d2 @ ws @ ''Pts'' @ drop 3 u" by simp
    from True g have g2: "g = d1 @ ''.'' @ d2" by simp
    show ?thesis
      by (rule that [of d1 "''.''" d2 ws "drop 3 u"]) (use s2 g2 ne dig1 dig2 sp in \<open>simp_all only: simp_thms\<close>)
  next
    case False
    then have "r2 = r1" unfolding r2_def by simp
    with s1 r2p have s2: "s = d1 @ [] @ [] @ ws @ ''Pts'' @ drop 3 u" by simp
    from False g have g2: "g = d1 @ [] @ []" by simp
    show ?thesis
      by (rule that [of d1 "[]" "[]" ws "drop 3 u"]) (use s2 g2 ne dig1 sp in simp_all)
  qed
qed

lemma pts_group_None_iff:
  "pts_group s = None \<longleftrightarrow> (\<forall>whole decimals. \<not> points_figure s whole decimals)"
proof
  assume n: "pts_group s = None"
  show "\<forall>whole decimals. \<not> points_figure s whole decimals"
  proof (intro allI notI)
    fix w f
    assume "points_figure s w f"
    then obtain dot ws rest where s: "s = w @ dot @ f @ ws @ ''Pts'' @ rest"
      and w: "w \<noteq> []" "\<forall>c \<in> set w. is_digit c"
      and f: "\<forall>c \<in> set f. is_digit c"
      and dot: "dot = ''.'' \<or> dot = [] \<and> f = []"
      and ws: "\<forall>c \<in> set ws. re_space c"
      unfolding points_figure_iff by blast
    from pts_group_of_figure(1) [OF s w f dot ws] n show False by simp
  qed
next
  assume a: "\<forall>whole decimals. \<not> points_figure s whole decimals"
  show "pts_group s = None"
  proof (rule ccontr)
    assume "pts_group s \<noteq> None"
    then obtain g where g: "pts_group s = Some g" by auto
    obtain w dot f ws rest
      where s: "s = w @ dot @ f @ ws @ ''Pts'' @ rest" and "g = w @ dot @ f"
      and w: "w \<noteq> []" "\<forall>c \<in> set w. is_digit c"
      and f: "\<forall>c \<in> set f. is_digit c"
      and dot: "dot = ''.'' \<or> dot = [] \<and> f = []"
      and ws: "\<forall>c \<in> set ws. re_space c"
      by (rule figure_of_pts_group [OF g])
    from s w f dot ws have "points_figure s w f" unfolding points_figure_iff by blast
    with a show False by blast
  qed
qed

text \<open>
  The code computes the specification's notion: the pattern matches exactly the summaries
  with a leading points figure, and \<^verbatim>\<open>float(g) > 15\<close> holds exactly when the
  number written, parsed as a double, is strictly greater than 15.
\<close>

lemma summary_over_15_code [code]:
  "summary_over_15 s \<longleftrightarrow> (case pts_group s of None \<Rightarrow> False | Some g \<Rightarrow> float_gt_15 g)"
proof
  assume "summary_over_15 s"
  then obtain w f dot ws rest where s: "s = w @ dot @ f @ ws @ ''Pts'' @ rest"
    and w: "w \<noteq> []" "\<forall>c \<in> set w. is_digit c"
    and f: "\<forall>c \<in> set f. is_digit c"
    and dot: "dot = ''.'' \<or> dot = [] \<and> f = []"
    and ws: "\<forall>c \<in> set ws. re_space c"
    and fe: "float_exceeds
               (of_nat (digits_value w) + of_nat (digits_value f) / 10 ^ length f) 15"
    unfolding summary_over_15_def points_figure_iff by blast
  note code = pts_group_of_figure [OF s w f dot ws]
  from fe have "float_gt_15 (w @ dot @ f)"
    unfolding float_gt_15_def code(2) float_exceeds_15 .
  with code(1) show "case pts_group s of None \<Rightarrow> False | Some g \<Rightarrow> float_gt_15 g"
    by simp
next
  assume a: "case pts_group s of None \<Rightarrow> False | Some g \<Rightarrow> float_gt_15 g"
  then obtain g where g: "pts_group s = Some g" and gt: "float_gt_15 g"
    by (cases "pts_group s") simp_all
  obtain w dot f ws rest
    where s: "s = w @ dot @ f @ ws @ ''Pts'' @ rest" and gw: "g = w @ dot @ f"
    and w: "w \<noteq> []" "\<forall>c \<in> set w. is_digit c"
    and f: "\<forall>c \<in> set f. is_digit c"
    and dot: "dot = ''.'' \<or> dot = [] \<and> f = []"
    and ws: "\<forall>c \<in> set ws. re_space c"
    by (rule figure_of_pts_group [OF g])
  note code = pts_group_of_figure [OF s w f dot ws]
  from gt have "float_exceeds
               (of_nat (digits_value w) + of_nat (digits_value f) / 10 ^ length f) 15"
    unfolding float_gt_15_def gw code(2) float_exceeds_15 .
  moreover from s w f dot ws have "points_figure s w f"
    unfolding points_figure_iff by blast
  ultimately show "summary_over_15 s" unfolding summary_over_15_def by blast
qed

text \<open>
  For a figure with at most fifteen decimals the rounding makes no difference: the summary
  yields a points figure above 15 exactly when the number written is greater than 15.
\<close>

lemma summary_over_15_exact:
  assumes "points_figure s whole decimals" and "length decimals \<le> 15"
  shows "summary_over_15 s \<longleftrightarrow>
           (15 :: rat) < of_nat (digits_value whole)
                          + of_nat (digits_value decimals) / 10 ^ length decimals"
proof -
  let ?v = "of_nat (digits_value whole)
              + of_nat (digits_value decimals) / 10 ^ length decimals :: rat"
  from assms(1) obtain dot ws rest
    where s: "s = whole @ dot @ decimals @ ws @ ''Pts'' @ rest"
      and w: "whole \<noteq> []" "\<forall>c \<in> set whole. is_digit c"
      and f: "\<forall>c \<in> set decimals. is_digit c"
      and dot: "dot = ''.'' \<or> dot = [] \<and> decimals = []"
      and ws: "\<forall>c \<in> set ws. re_space c"
    unfolding points_figure_iff by blast
  note code = pts_group_of_figure [OF s w f dot ws]
  have "summary_over_15 s \<longleftrightarrow> float_gt_15 (whole @ dot @ decimals)"
    by (simp add: summary_over_15_code code(1))
  also have "\<dots> \<longleftrightarrow> float_exceeds ?v 15"
    unfolding float_gt_15_def code(2) float_exceeds_15 ..
  also have "\<dots> \<longleftrightarrow> 15 < ?v"
    using assms(2) by (rule float_exceeds_15_short)
  finally show ?thesis .
qed

subsection \<open>Has Scoring Guard\<close>

lemma guard_loop_step:
  assumes "record_with_text [''stats_summary''] p"
  shows "guard_loop (p # rest) =
           (if guard_position p \<and> points_over_15 p then Inr True else guard_loop rest)"
proof -
  from assms obtain kvs where p: "p = PyDict kvs" and ts: "text_field kvs ''stats_summary''"
    by (cases p) simp_all
  show ?thesis
  proof (cases "guard_position p")
    case False
    with p have "\<not> py_in (case map_of kvs ''pos'' of None \<Rightarrow> PyStr [] | Some v \<Rightarrow> v)
                      [''G'', ''PG'', ''SG'']"
      by (auto split: option.splits pyval.splits)
    with p False show ?thesis by simp
  next
    case True
    with p have g: "py_in (case map_of kvs ''pos'' of None \<Rightarrow> PyStr [] | Some v \<Rightarrow> v)
                      [''G'', ''PG'', ''SG'']"
      by (auto split: option.splits pyval.splits)
    show ?thesis
    proof (cases "map_of kvs ''stats_summary''")
      case None
      with p g True show ?thesis by simp
    next
      case (Some v)
      with ts obtain s where v: "v = PyStr s"
        by (cases v) (simp_all add: text_field_def)
      with p g True Some show ?thesis
        by (cases "pts_group s") (auto simp: summary_over_15_code pts_group_def)
    qed
  qed
qed

lemma guard_loop_records:
  "\<forall>p \<in> set ps. record_with_text [''stats_summary''] p \<Longrightarrow>
     guard_loop ps = Inr (\<exists>p \<in> set ps. guard_position p \<and> points_over_15 p)"
proof (induction ps)
  case Nil
  then show ?case by simp
next
  case (Cons p ps)
  then have "record_with_text [''stats_summary''] p"
    and rest: "\<forall>q \<in> set ps. record_with_text [''stats_summary''] q" by simp_all
  then have "guard_loop (p # ps) =
      (if guard_position p \<and> points_over_15 p then Inr True else guard_loop ps)"
    by (simp only: guard_loop_step)
  with Cons.IH [OF rest] show ?case by auto
qed

text \<open>
  C8. On a roster whose first five entries are records with a text stats summary, Has
  Scoring Guard returns true exactly when the roster has five entries and one of the first
  five is a guard-position entry whose stats summary yields a points figure above 15: it
  has a leading points figure, and the number written, parsed as a double, is strictly
  greater than 15. The summary "16.2 Pts, 3 Ast" yields one; "14.9 Pts" does not, and
  neither does "15.0 Pts". The pattern of the code finds no figure exactly in the summaries
  that have no leading points figure, and such a summary never yields one. For a figure
  with at most fifteen decimals, the summary yields one exactly when the number written is
  greater than 15.
\<close>

theorem has_scoring_guard_in_first_five:
  assumes "row ''roster'' = Some cell" and "parse_roster cell = Inr (PyList xs)"
    and "\<forall>p \<in> set (take 5 xs). record_with_text [''stats_summary''] p"
  shows "has_scoring_guard row =
           Inr (5 \<le> length xs \<and> (\<exists>p \<in> set (take 5 xs). guard_position p \<and> points_over_15 p))
       \<and> summary_over_15 ''16.2 Pts, 3 Ast''
       \<and> \<not> summary_over_15 ''14.9 Pts''
       \<and> \<not> summary_over_15 ''15.0 Pts''
       \<and> (\<forall>s. pts_group s = None \<longleftrightarrow> (\<forall>whole decimals. \<not> points_figure s whole decimals))
       \<and> (\<forall>s. (\<forall>whole decimals. \<not> points_figure s whole decimals) \<longrightarrow> \<not> summary_over_15 s)
       \<and> (\<forall>s whole decimals. points_figure s whole decimals \<and> length decimals \<le> 15 \<longrightarrow>
             (summary_over_15 s \<longleftrightarrow>
                (15 :: rat) < of_nat (digits_value whole)
                               + of_nat (digits_value decimals) / 10 ^ length decimals))"
proof (intro conjI)
  have top: "roster_top_5 row = Inr (if length xs < 5 then None else Some (take 5 xs))"
    using assms(1,2) by (rule roster_top_5_list)
  show "has_scoring_guard row =
           Inr (5 \<le> length xs \<and> (\<exists>p \<in> set (take 5 xs). guard_position p \<and> points_over_15 p))"
  proof (cases "length xs < 5")
    case True
    with top show ?thesis by (simp add: has_scoring_guard_def except_return_def)
  next
    case False
    moreover have "guard_loop (take 5 xs) =
        Inr (\<exists>p \<in> set (take 5 xs). guard_position p \<and> points_over_15 p)"
      using assms(3) by (rule guard_loop_records)
    ultimately show ?thesis
      using top by (simp add: has_scoring_guard_def except_return_def)
  qed
  show "summary_over_15 ''16.2 Pts, 3 Ast''" by code_simp
  show "\<not> summary_over_15 ''14.9 Pts''" by code_simp
  show "\<not> summary_over_15 ''15.0 Pts''" by code_simp
  show "\<forall>s. pts_group s = None \<longleftrightarrow> (\<forall>whole decimals. \<not> points_figure s whole decimals)"
    by (simp only: pts_group_None_iff simp_thms)
  show "\<forall>s. (\<forall>whole decimals. \<not> points_figure s whole decimals) \<longrightarrow> \<not> summary_over_15 s"
    by (simp add: summary_over_15_def)
  show "\<forall>s whole decimals. points_figure s whole decimals \<and> length decimals \<le> 15 \<longrightarrow>
             (summary_over_15 s \<longleftrightarrow>
                (15 :: rat) < of_nat (digits_value whole)
                               + of_nat (digits_value decimals) / 10 ^ length decimals)"
    using summary_over_15_exact by blast
qed

theorem has_scoring_guard_in_first_five_witness:
  "has_scoring_guard [''roster'' \<mapsto> PyStr ''[{'pos': 'F', 'stats_summary': '18.0 Pts'}, {'pos': 'PG', 'stats_summary': '16.2 Pts, 3 Ast'}, {}, {}, {}]''] = Inr True
   \<and> has_scoring_guard [''roster'' \<mapsto> PyStr ''[{'pos': 'F', 'stats_summary': '18.0 Pts'}, {'pos': 'PG', 'stats_summary': '14.9 Pts'}, {}, {}, {}]''] = Inr False
   \<and> \<not> summary_over_15 ''16 points''
   \<and> points_figure ''15.01 Pts'' ''15'' ''01''
   \<and> summary_over_15 ''15.01 Pts''"
proof -
  let ?a = "PyStr ''[{'pos': 'F', 'stats_summary': '18.0 Pts'}, {'pos': 'PG', 'stats_summary': '16.2 Pts, 3 Ast'}, {}, {}, {}]''"
  let ?b = "PyStr ''[{'pos': 'F', 'stats_summary': '18.0 Pts'}, {'pos': 'PG', 'stats_summary': '14.9 Pts'}, {}, {}, {}]''"
  let ?xs = "[PyDict [(''pos'', PyStr ''F''), (''stats_summary'', PyStr ''18.0 Pts'')],
              PyDict [(''pos'', PyStr ''PG''), (''stats_summary'', PyStr ''16.2 Pts, 3 Ast'')],
              PyDict [], PyDict [], PyDict []]"
  let ?ys = "[PyDict [(''pos'', PyStr ''F''), (''stats_summary'', PyStr ''18.0 Pts'')],
              PyDict [(''pos'', PyStr ''PG''), (''stats_summary'', PyStr ''14.9 Pts'')],
              PyDict [], PyDict [], PyDict []]"
  have ca: "[''roster'' \<mapsto> ?a] ''roster'' = Some ?a" by simp
  have cb: "[''roster'' \<mapsto> ?b] ''roster'' = Some ?b" by simp
  have pa: "parse_roster ?a = Inr (PyList ?xs)" by code_simp
  have pb: "parse_roster ?b = Inr (PyList ?ys)" by code_simp
  have ra: "\<forall>p \<in> set (take 5 ?xs). record_with_text [''stats_summary''] p"
    by (simp add: text_field_def)
  have rb: "\<forall>p \<in> set (take 5 ?ys). record_with_text [''stats_summary''] p"
    by (simp add: text_field_def)
  have ta: "(5 \<le> length ?xs
             \<and> (\<exists>p \<in> set (take 5 ?xs). guard_position p \<and> points_over_15 p)) = True"
    by code_simp
  have tb: "(5 \<le> length ?ys
             \<and> (\<exists>p \<in> set (take 5 ?ys). guard_position p \<and> points_over_15 p)) = False"
    by code_simp
  note a = has_scoring_guard_in_first_five [of "[''roster'' \<mapsto> ?a]" ?a ?xs, OF ca pa ra]
  note b = has_scoring_guard_in_first_five [of "[''roster'' \<mapsto> ?b]" ?b ?ys, OF cb pb rb]
  from a have 1: "has_scoring_guard [''roster'' \<mapsto> ?a] = Inr True" by (simp only: ta)
  from b have 2: "has_scoring_guard [''roster'' \<mapsto> ?b] = Inr False" by (simp only: tb)
  note rest = a [THEN conjunct2, THEN conjunct2, THEN conjunct2, THEN conjunct2]
  have "pts_group ''16 points'' = None" by code_simp
  with rest [THEN conjunct1] have "\<forall>whole decimals. \<not> points_figure ''16 points'' whole decimals"
    by blast
  with rest [THEN conjunct2, THEN conjunct1] have 3: "\<not> summary_over_15 ''16 points''"
    by blast
  have 4: "points_figure ''15.01 Pts'' ''15'' ''01''"
    unfolding points_figure_def
    by (rule exI [of _ "''.''"], rule exI [of _ "'' ''"], rule exI [of _ "[]"])
      (simp add: blank_def)
  have "length ''01'' \<le> 15" by simp
  with rest [THEN conjunct2, THEN conjunct2] 4
  have "summary_over_15 ''15.01 Pts'' \<longleftrightarrow>
          (15 :: rat) < of_nat (digits_value ''15'') + of_nat (digits_value ''01'') / 10 ^ length ''01''"
    by blast
  then have 5: "summary_over_15 ''15.01 Pts''"
    by (simp add: digits_value_def digit_val_def)
  from 1 2 3 4 5 show ?thesis by (intro conjI)
qed

lemma guard_loop_True:
  "guard_loop ps = Inr True \<Longrightarrow> \<exists>p \<in> set ps. guard_position p \<and> points_over_15 p"
proof (induction ps)
  case Nil
  then show ?case by simp
next
  case (Cons p ps)
  show ?case
  proof (cases "guard_position p \<and> points_over_15 p")
    case True
    then show ?thesis by auto
  next
    case False
    have "guard_loop ps = Inr True"
    proof (cases p)
      case (PyDict kvs)
      with Cons.prems False show ?thesis
        by (auto simp: summary_over_15_code
              split: option.splits sum.splits if_splits pyval.splits)
    qed (use Cons.prems in simp_all)
    with Cons.IH show ?thesis by auto
  qed
qed

lemma guard_loop_no_guard:
  "\<forall>p \<in> set ps. \<not> guard_position p \<Longrightarrow>
     guard_loop ps = Inr False \<or> guard_loop ps = Inl AttributeError"
proof (induction ps)
  case Nil
  then show ?case by simp
next
  case (Cons p ps)
  then have ng: "\<not> guard_position p"
    and IH: "guard_loop ps = Inr False \<or> guard_loop ps = Inl AttributeError" by simp_all
  show ?case
  proof (cases p)
    case (PyDict kvs)
    with ng have "\<not> py_in (case map_of kvs ''pos'' of None \<Rightarrow> PyStr [] | Some v \<Rightarrow> v)
                       [''G'', ''PG'', ''SG'']"
      by (auto split: option.splits pyval.splits)
    with PyDict IH show ?thesis by simp
  qed simp_all
qed

text \<open>
  C9. Has Scoring Guard counts an entry as a guard only when its position is exactly one
  of the strings "G", "PG" and "SG". Whenever the predicate returns true, one of the first
  five entries of the roster has such a position and a points figure above 15; and on a
  roster none of whose first five entries has such a position (one that reads "G/F" or
  "Guard", say) the predicate returns false, however large the points figures are.
\<close>

theorem scoring_guard_needs_guard_position:
  "(has_scoring_guard row = Inr True \<longrightarrow>
      (\<exists>cell xs. row ''roster'' = Some cell \<and> parse_roster cell = Inr (PyList xs)
         \<and> (\<exists>p \<in> set (take 5 xs). guard_position p \<and> points_over_15 p)))
   \<and> (guard_position p \<longleftrightarrow>
        (\<exists>kvs pos. p = PyDict kvs \<and> map_of kvs ''pos'' = Some (PyStr pos)
           \<and> (pos = ''G'' \<or> pos = ''PG'' \<or> pos = ''SG'')))
   \<and> (row ''roster'' = Some cell \<and> parse_roster cell = Inr (PyList xs)
        \<and> (\<forall>q \<in> set (take 5 xs). \<not> guard_position q) \<longrightarrow> has_scoring_guard row = Inr False)"
proof (intro conjI impI)
  assume t: "has_scoring_guard row = Inr True"
  then obtain top_5 where top: "roster_top_5 row = Inr (Some top_5)"
    and loop: "guard_loop top_5 = Inr True"
    by (auto simp: has_scoring_guard_def except_return_def
          split: sum.splits option.splits if_splits)
  from loop obtain p where p: "p \<in> set top_5" "guard_position p" "points_over_15 p"
    using guard_loop_True by blast
  from roster_top_5_Some [OF top] obtain cell r where c: "row ''roster'' = Some cell"
    and r: "parse_roster cell = Inr r"
    and shape: "(\<exists>xs. r = PyList xs \<and> 5 \<le> length xs \<and> top_5 = take 5 xs)
              \<or> (\<exists>s. r = PyStr s \<and> 5 \<le> length s \<and> top_5 = map (\<lambda>c. PyStr [c]) (take 5 s))"
    by blast
  from shape show "\<exists>cell xs. row ''roster'' = Some cell \<and> parse_roster cell = Inr (PyList xs)
         \<and> (\<exists>p \<in> set (take 5 xs). guard_position p \<and> points_over_15 p)"
  proof
    assume "\<exists>xs. r = PyList xs \<and> 5 \<le> length xs \<and> top_5 = take 5 xs"
    with c r p show ?thesis by blast
  next
    assume "\<exists>s. r = PyStr s \<and> 5 \<le> length s \<and> top_5 = map (\<lambda>c. PyStr [c]) (take 5 s)"
    with p(1,2) have False by auto
    then show ?thesis ..
  qed
next
  show "guard_position p \<longleftrightarrow>
        (\<exists>kvs pos. p = PyDict kvs \<and> map_of kvs ''pos'' = Some (PyStr pos)
           \<and> (pos = ''G'' \<or> pos = ''PG'' \<or> pos = ''SG''))"
    by (cases p) (auto split: option.splits pyval.splits)
next
  assume a: "row ''roster'' = Some cell \<and> parse_roster cell = Inr (PyList xs)
        \<and> (\<forall>q \<in> set (take 5 xs). \<not> guard_position q)"
  then have top: "roster_top_5 row = Inr (if length xs < 5 then None else Some (take 5 xs))"
    using roster_top_5_list [of row cell xs] by blast
  from a have "guard_loop (take 5 xs) = Inr False \<or> guard_loop (take 5 xs) = Inl AttributeError"
    using guard_loop_no_guard [of "take 5 xs"] by blast
  with top show "has_scoring_guard row = Inr False"
    by (auto simp: has_scoring_guard_def except_return_def)
qed


theorem scoring_guard_needs_guard_position_witness:
  "has_scoring_guard [''roster'' \<mapsto> PyStr ''[{'pos': 'G/F', 'stats_summary': '99.9 Pts'}, {'pos': 'Guard', 'stats_summary': '99.9 Pts'}, {'pos': 'F'}, {'pos': 'C'}, {}]''] = Inr False
   \<and> (\<exists>cell xs. [''roster'' \<mapsto> PyList (replicate 5 star)] ''roster'' = Some cell
         \<and> parse_roster cell = Inr (PyList xs)
         \<and> (\<exists>p \<in> set (take 5 xs). guard_position p \<and> points_over_15 p))"
proof -
  let ?a = "PyStr ''[{'pos': 'G/F', 'stats_summary': '99.9 Pts'}, {'pos': 'Guard', 'stats_summary': '99.9 Pts'}, {'pos': 'F'}, {'pos': 'C'}, {}]''"
  let ?xs = "[PyDict [(''pos'', PyStr ''G/F''), (''stats_summary'', PyStr ''99.9 Pts'')],
              PyDict [(''pos'', PyStr ''Guard''), (''stats_summary'', PyStr ''99.9 Pts'')],
              PyDict [(''pos'', PyStr ''F'')], PyDict [(''pos'', PyStr ''C'')], PyDict []]"
  have ca: "[''roster'' \<mapsto> ?a] ''roster'' = Some ?a" by simp
  have pa: "parse_roster ?a = Inr (PyList ?xs)" by code_simp
  have na: "\<forall>q \<in> set (take 5 ?xs). \<not> guard_position q" by simp
  have t: "has_scoring_guard [''roster'' \<mapsto> PyList (replicate 5 star)] = Inr True"
    by code_simp
  from scoring_guard_needs_guard_position [of "[''roster'' \<mapsto> ?a]" star ?a ?xs] ca pa na
  have 1: "has_scoring_guard [''roster'' \<mapsto> ?a] = Inr False" by blast
  from scoring_guard_needs_guard_position
         [of "[''roster'' \<mapsto> PyList (replicate 5 star)]" star ?a ?xs] t
  have 2: "\<exists>cell xs. [''roster'' \<mapsto> PyList (replicate 5 star)] ''roster'' = Some cell
         \<and> parse_roster cell = Inr (PyList xs)
         \<and> (\<exists>p \<in> set (take 5 xs). guard_position p \<and> points_over_15 p)" by blast
  from 1 2 show ?thesis by blast
qed

section \<open>Totality of the predicates\<close>

text \<open>
  C1 says that every predicate of the registry returns a boolean on every row and never
  raises. The code does not meet it. A roster cell that is empty in the CSV file is read as
  NaN; \<^verbatim>\<open>parse_roster\<close> hands it on, NaN is true, and \<^verbatim>\<open>len\<close> raises
  a TypeError that no roster predicate catches. The same happens for the roster text "5",
  a literal that is not a list of records. A rank cell holding an infinite float makes a
  rank predicate raise OverflowError, and one holding None a TypeError.
\<close>

theorem predicates_raise_uncaught:
  "has_experienced_core [''roster'' \<mapsto> PyFloat NaN] = Inl TypeError
   \<and> has_top_recruits [''roster'' \<mapsto> PyFloat NaN] = Inl TypeError
   \<and> has_scoring_guard [''roster'' \<mapsto> PyFloat NaN] = Inl TypeError
   \<and> has_size [''roster'' \<mapsto> PyFloat NaN] = Inl TypeError
   \<and> has_experienced_core [''roster'' \<mapsto> PyStr ''5''] = Inl TypeError
   \<and> is_good_scoring_team [''PTS Rank'' \<mapsto> PyFloat PosInf] = Inl OverflowError
   \<and> is_good_scoring_team [''PTS Rank'' \<mapsto> PyNone] = Inl TypeError"
  by code_simp

section \<open>The evaluation driver: results\<close>

lemma apply_rows_length: "apply_rows func srs = Inr bs \<Longrightarrow> length bs = length srs"
  by (induction srs arbitrary: bs) (auto split: sum.splits)

lemma keeps_rows_set_column:
  assumes "keeps_rows base df" and "length vals = length base"
  shows "keeps_rows base (set_column df name vals)"
proof -
  from assms(1) have cols: "take 2 (columns df) = [''year'', ''team'']"
    and rows: "list_all2 (\<lambda>r b. length r = length (columns df) \<and> take 2 r = b) (cells df) base"
    by (simp_all add: keeps_rows_def)
  from cols have two: "2 \<le> length (columns df)"
    by (cases "columns df"; cases "tl (columns df)") auto
  from rows have len: "length (cells df) = length base"
    by (rule list_all2_lengthD)
  have "list_all2 (\<lambda>r b. length r = length (columns df @ [name]) \<and> take 2 r = b)
          (map (\<lambda>(r, v). r @ [v]) (zip (cells df) vals)) base"
  proof (rule list_all2_all_nthI)
    show "length (map (\<lambda>(r, v). r @ [v]) (zip (cells df) vals)) = length base"
      using len assms(2) by simp
  next
    fix n
    assume "n < length (map (\<lambda>(r, v). r @ [v]) (zip (cells df) vals))"
    then have n: "n < length (cells df)" "n < length vals" by simp_all
    with rows have r: "length (cells df ! n) = length (columns df)"
      "take 2 (cells df ! n) = base ! n"
      by (simp_all add: list_all2_conv_all_nth)
    with n two show "length (map (\<lambda>(r, v). r @ [v]) (zip (cells df) vals) ! n)
             = length (columns df @ [name])
           \<and> take 2 (map (\<lambda>(r, v). r @ [v]) (zip (cells df) vals) ! n) = base ! n"
      by simp
  qed
  moreover from cols two have "take 2 (columns df @ [name]) = [''year'', ''team'']"
    by simp
  ultimately show ?thesis by (simp add: keeps_rows_def set_column_def)
qed

lemma apply_registry_keeps_rows:
  assumes "apply_registry fs srs df = Inr out" and "keeps_rows base df"
    and "length srs = length base"
  shows "keeps_rows base out \<and> columns out = columns df @ map fst fs"
  using assms
proof (induction fs arbitrary: df)
  case Nil
  then show ?case by simp
next
  case (Cons f fs)
  obtain col_name func where f: "f = (col_name, func)" by (cases f)
  with Cons.prems(1) obtain bs where bs: "apply_rows func srs = Inr bs"
    and rest: "apply_registry fs srs (set_column df col_name (map PyBool bs)) = Inr out"
    by (auto split: sum.splits)
  from bs Cons.prems(3) have "length (map PyBool bs) = length base"
    by (simp add: apply_rows_length)
  with Cons.prems(2) have k: "keeps_rows base (set_column df col_name (map PyBool bs))"
    by (rule keeps_rows_set_column)
  from rest k Cons.prems(3)
  have "keeps_rows base out
      \<and> columns out = columns (set_column df col_name (map PyBool bs)) @ map fst fs"
    by (rule Cons.IH)
  with f show ?case by (simp add: set_column_def)
qed

lemma map_column_row:
  assumes "length r = length cols" and "take 2 cols = [''year'', ''team'']"
    and "col \<noteq> ''year''" and "col \<noteq> ''team''"
  shows "length (map (\<lambda>(c, v). if c = col then f v else v) (zip cols r)) = length cols
       \<and> take 2 (map (\<lambda>(c, v). if c = col then f v else v) (zip cols r)) = take 2 r"
proof -
  from assms(2) obtain rest where cols: "cols = ''year'' # ''team'' # rest"
    by (cases cols; cases "tl cols") auto
  with assms(1) obtain a b more where r: "r = a # b # more"
    by (cases r; cases "tl r") auto
  from cols r assms show ?thesis by simp
qed

lemma keeps_rows_map_column:
  assumes "keeps_rows base df" and "col \<noteq> ''year''" and "col \<noteq> ''team''"
  shows "keeps_rows base (map_column f col df) \<and> columns (map_column f col df) = columns df"
proof -
  from assms(1) have cols: "take 2 (columns df) = [''year'', ''team'']"
    and rows: "list_all2 (\<lambda>r b. length r = length (columns df) \<and> take 2 r = b) (cells df) base"
    by (simp_all add: keeps_rows_def)
  have "list_all2 (\<lambda>r b. length r = length (columns df) \<and> take 2 r = b)
          (map (\<lambda>r. map (\<lambda>(c, v). if c = col then f v else v) (zip (columns df) r)) (cells df))
          base"
  proof (rule list_all2_all_nthI)
    show "length (map (\<lambda>r. map (\<lambda>(c, v). if c = col then f v else v) (zip (columns df) r))
                   (cells df)) = length base"
      using rows by (simp add: list_all2_lengthD)
  next
    fix n
    assume "n < length (map (\<lambda>r. map (\<lambda>(c, v). if c = col then f v else v)
                                   (zip (columns df) r)) (cells df))"
    then have n: "n < length (cells df)" by simp
    with rows have r: "length (cells df ! n) = length (columns df)"
      "take 2 (cells df ! n) = base ! n"
      by (simp_all add: list_all2_conv_all_nth)
    from map_column_row [OF r(1) cols assms(2,3), of f] r(2) n
    show "length (map (\<lambda>r. map (\<lambda>(c, v). if c = col then f v else v) (zip (columns df) r))
                   (cells df) ! n) = length (columns df)
        \<and> take 2 (map (\<lambda>r. map (\<lambda>(c, v). if c = col then f v else v) (zip (columns df) r))
                    (cells df) ! n) = base ! n"
      by simp
  qed
  with cols show ?thesis by (simp add: keeps_rows_def map_column_def)
qed

lemma fold_map_column_keeps_rows:
  assumes "keeps_rows base df" and "''year'' \<notin> set names" and "''team'' \<notin> set names"
  shows "keeps_rows base (fold (map_column f) names df)
       \<and> columns (fold (map_column f) names df) = columns df"
  using assms
proof (induction names arbitrary: df)
  case Nil
  then show ?case by simp
next
  case (Cons col names)
  then have "col \<noteq> ''year''" "col \<noteq> ''team''" by auto
  with Cons.prems(1)
  have step: "keeps_rows base (map_column f col df) \<and> columns (map_column f col df) = columns df"
    by (rule keeps_rows_map_column)
  moreover from Cons.prems have "''year'' \<notin> set names" "''team'' \<notin> set names" by simp_all
  ultimately have "keeps_rows base (fold (map_column f) names (map_column f col df))
       \<and> columns (fold (map_column f) names (map_column f col df))
           = columns (map_column f col df)"
    using Cons.IH by blast
  with step show ?case by simp
qed

lemma registry_names_fresh:
  "''year'' \<notin> set (map fst ANALYSIS_FUNCTIONS)" "''team'' \<notin> set (map fst ANALYSIS_FUNCTIONS)"
  by (simp_all add: ANALYSIS_FUNCTIONS_def)

text \<open>
  Whenever \<^verbatim>\<open>analyze_teams\<close> returns a table, that table has the columns year and
  team followed by the registry's names, as many rows as the input, and in row \<open>i\<close> the
  year and the team of input row \<open>i\<close>.
\<close>

lemma analyze_teams_keeps_rows:
  assumes "analyze_teams stats_df = Inr out"
  shows "columns out = [''year'', ''team''] @ map fst ANALYSIS_FUNCTIONS
       \<and> length (cells out) = length (cells stats_df)
       \<and> (\<forall>i < length (cells stats_df).
            row_series (columns stats_df) (cells stats_df ! i) ''year'' = Some (cells out ! i ! 0)
          \<and> row_series (columns stats_df) (cells stats_df ! i) ''team'' = Some (cells out ! i ! 1))"
proof -
  define cols where "cols = columns stats_df"
  define cell where "cell = (\<lambda>r n. case row_series cols r n of None \<Rightarrow> PyNone | Some v \<Rightarrow> v)"
  define base where "base = map (\<lambda>r. [cell r ''year'', cell r ''team'']) (cells stats_df)"
  define start where "start = \<lparr>columns = [''year'', ''team''], cells = base\<rparr>"
  from assms have wf: "well_formed stats_df"
    by (auto simp: analyze_teams_def split: if_splits)
  from assms have sel: "select_columns stats_df [''year'', ''team''] = Inr start"
    and present: "''year'' \<in> set cols" "''team'' \<in> set cols"
    by (auto simp: analyze_teams_def select_columns_def start_def base_def cell_def cols_def
          split: if_splits sum.splits)
  from assms sel obtain with_bools where
    reg: "apply_registry ANALYSIS_FUNCTIONS (map (row_series cols) (cells stats_df)) start
            = Inr with_bools"
    and out: "out = fold (map_column yes_no) (map fst ANALYSIS_FUNCTIONS) with_bools"
    by (auto simp: analyze_teams_def cols_def split: if_splits sum.splits)
  have k0: "keeps_rows base start"
    by (simp add: keeps_rows_def start_def base_def list_all2_conv_all_nth)
  have "length (map (row_series cols) (cells stats_df)) = length base"
    by (simp add: base_def)
  with reg k0 have k1: "keeps_rows base with_bools
      \<and> columns with_bools = columns start @ map fst ANALYSIS_FUNCTIONS"
    by (rule apply_registry_keeps_rows)
  then have "keeps_rows base (fold (map_column yes_no) (map fst ANALYSIS_FUNCTIONS) with_bools)
       \<and> columns (fold (map_column yes_no) (map fst ANALYSIS_FUNCTIONS) with_bools)
           = columns with_bools"
    using registry_names_fresh by (intro fold_map_column_keeps_rows) simp_all
  with k1 out have k2: "keeps_rows base out"
    and c2: "columns out = [''year'', ''team''] @ map fst ANALYSIS_FUNCTIONS"
    by (simp_all add: start_def)
  from k2 have rows: "list_all2 (\<lambda>r b. length r = length (columns out) \<and> take 2 r = b)
                        (cells out) base"
    by (simp add: keeps_rows_def)
  then have len: "length (cells out) = length (cells stats_df)"
    by (simp add: list_all2_lengthD base_def)
  have "\<forall>i < length (cells stats_df).
            row_series cols (cells stats_df ! i) ''year'' = Some (cells out ! i ! 0)
          \<and> row_series cols (cells stats_df ! i) ''team'' = Some (cells out ! i ! 1)"
  proof (intro allI impI)
    fix i
    assume i: "i < length (cells stats_df)"
    with rows len have t: "take 2 (cells out ! i) = base ! i"
      by (simp add: list_all2_conv_all_nth)
    from i have b: "base ! i = [cell (cells stats_df ! i) ''year'', cell (cells stats_df ! i) ''team'']"
      by (simp add: base_def)
    from t b have o: "cells out ! i ! 0 = cell (cells stats_df ! i) ''year''"
      "cells out ! i ! 1 = cell (cells stats_df ! i) ''team''"
      by (metis nth_take zero_less_numeral nth_Cons_0, metis nth_take one_less_numeral_iff semiring_norm(76) nth_Cons_0 nth_Cons_Suc One_nat_def)
    from wf i have "length (cells stats_df ! i) = length cols"
      by (simp add: well_formed_def cols_def list_all_length)
    with present obtain y t' where "map_of (zip cols (cells stats_df ! i)) ''year'' = Some y"
      "map_of (zip cols (cells stats_df ! i)) ''team'' = Some t'"
      by (metis map_of_zip_is_Some)
    with o show "row_series cols (cells stats_df ! i) ''year'' = Some (cells out ! i ! 0)
          \<and> row_series cols (cells stats_df ! i) ''team'' = Some (cells out ! i ! 1)"
      by (simp add: cell_def row_series_def)
  qed
  with c2 len show ?thesis by (simp add: cols_def)
qed

text \<open>
  C3 says that the driver produces, for every input table, an output table with one row
  per input row. The code does not meet it: the driver has no handler of its own, so an
  exception of a predicate ends it. On a table with a row whose roster cell is NaN it
  raises the TypeError of the roster predicates and produces no table at all.
\<close>

theorem analyze_teams_raises:
  "analyze_teams
     \<lparr>columns = [''year'', ''team'', ''PTS Rank'', ''roster''],
      cells = [[PyInt 2024, PyStr ''Duke'', PyInt 12, PyStr ''[]''],
               [PyInt 2023, PyStr ''UConn'', PyFloat NaN, PyFloat NaN]]\<rparr> = Inl TypeError"
  by code_simp

end
